theory Spec2Isabelle
  imports Main "HOL-Library.Char_ord" "HOL-Library.List_Lexorder"
begin

section \<open>Errors and outcomes\<close>

text \<open>
  A path is the list of its components; \<open>filepath.Join(path, name)\<close> appends one
  component. Go strings and byte slices are lists of bytes (\<open>char\<close> is a byte).
\<close>

type_synonym path = "string list"

datatype errno = ENOENT | ENOTDIR | EACCES | EISDIR

text \<open>
  The error values the package can return: \<open>*os.PathError\<close> (operation, path, errno),
  the fixed texts of \<open>errors.New\<close> and \<open>fmt.Errorf\<close>, and the errors of
  \<open>encoding/json\<close> (with \<open>io.EOF\<close> for an empty stream and \<open>io.ErrUnexpectedEOF\<close>
  for a stream that ends inside a value) and \<open>encoding/base64\<close>.
  Only a \<open>PathError\<close> carries a path.
\<close>

datatype error =
    PathError string path errno
  | ErrorString string
  | SyntaxError
  | EOF
  | ErrUnexpectedEOF
  | UnmarshalTypeError
  | InvalidUnmarshalError
  | CorruptInputError nat

text \<open>\<open>os.IsNotExist\<close>: the error is a path error whose errno is \<open>ENOENT\<close>.\<close>

fun os_IsNotExist :: "error \<Rightarrow> bool" where
  "os_IsNotExist (PathError _ _ en) = (en = ENOENT)"
| "os_IsNotExist _ = False"

fun error_path :: "error \<Rightarrow> path option" where
  "error_path (PathError _ p _) = Some p"
| "error_path _ = None"

text \<open>A run-time panic is not an error value: the call does not return.\<close>

datatype panic = IndexOutOfRange nat nat | NilDereference

datatype 'a exec = Done 'a | Panic panic

section \<open>The file system\<close>

text \<open>
  A file system is a tree. A file has its bytes, a directory its entries by name; the
  flag says whether the node may be opened for reading. An entry of a directory can also be
  a symbolic link whose target does not exist: the directory lists its name, and every
  call that follows the link (\<open>os.Stat\<close>, \<open>os.Open\<close>) fails with \<open>ENOENT\<close>. A link
  whose target exists is not told apart from its target, since the package never looks at
  the kind of an entry that \<open>ioutil.ReadDir\<close> reports, only at its name.
\<close>

datatype fsnode = File bool string | Dir bool "(string \<times> fsnode) list" | DanglingLink

fun is_dir :: "fsnode \<Rightarrow> bool" where
  "is_dir (Dir _ _) = True"
| "is_dir (File _ _) = False"
| "is_dir DanglingLink = False"

text \<open>
  The node a path resolves to, links followed; the result is never a link.
\<close>

fun lookup :: "fsnode \<Rightarrow> path \<Rightarrow> errno + fsnode" where
  "lookup n [] = (case n of DanglingLink \<Rightarrow> Inl ENOENT | _ \<Rightarrow> Inr n)"
| "lookup n (x # xs) =
     (case n of
        File _ _ \<Rightarrow> Inl ENOTDIR
      | DanglingLink \<Rightarrow> Inl ENOENT
      | Dir _ es \<Rightarrow> (case map_of es x of None \<Rightarrow> Inl ENOENT | Some c \<Rightarrow> lookup c xs))"

record FileInfo =
  fi_Name :: string
  fi_IsDir :: bool

definition base :: "path \<Rightarrow> string" where
  "base p = (if p = [] then ''/'' else last p)"

definition os_Stat :: "fsnode \<Rightarrow> path \<Rightarrow> error + FileInfo" where
  "os_Stat fs p =
     (case lookup fs p of
        Inl en \<Rightarrow> Inl (PathError ''stat'' p en)
      | Inr n \<Rightarrow> Inr \<lparr>fi_Name = base p, fi_IsDir = is_dir n\<rparr>)"

text \<open>
  \<open>ioutil.ReadDir\<close>: the entries of the directory, sorted by file name. Each entry is
  described without following a link (\<open>lstat\<close>), so a dangling link is listed.
\<close>

definition ioutil_ReadDir :: "fsnode \<Rightarrow> path \<Rightarrow> error + FileInfo list" where
  "ioutil_ReadDir fs p =
     (case lookup fs p of
        Inl en \<Rightarrow> Inl (PathError ''open'' p en)
      | Inr (File _ _) \<Rightarrow> Inl (PathError ''readdirent'' p ENOTDIR)
      | Inr DanglingLink \<Rightarrow> Inl (PathError ''open'' p ENOENT)
      | Inr (Dir r es) \<Rightarrow>
          if r then Inr (sort_key fi_Name (map (\<lambda>(n, c). \<lparr>fi_Name = n, fi_IsDir = is_dir c\<rparr>) es))
          else Inl (PathError ''open'' p EACCES))"

text \<open>\<open>os.Open\<close> followed by reading the whole file.\<close>

definition read_all :: "fsnode \<Rightarrow> path \<Rightarrow> error + string" where
  "read_all fs p =
     (case lookup fs p of
        Inl en \<Rightarrow> Inl (PathError ''open'' p en)
      | Inr (File r c) \<Rightarrow> if r then Inr c else Inl (PathError ''open'' p EACCES)
      | Inr DanglingLink \<Rightarrow> Inl (PathError ''open'' p ENOENT)
      | Inr (Dir _ _) \<Rightarrow> Inl (PathError ''read'' p EISDIR))"

definition strings_HasSuffix :: "string \<Rightarrow> string \<Rightarrow> bool" where
  "strings_HasSuffix s sfx =
     (length sfx \<le> length s \<and> drop (length s - length sfx) s = sfx)"

definition strings_HasPrefix :: "string \<Rightarrow> string \<Rightarrow> bool" where
  "strings_HasPrefix s pfx = (length pfx \<le> length s \<and> take (length pfx) s = pfx)"

section \<open>Filesystem validators\<close>

definition IsLibrary :: "fsnode \<Rightarrow> path \<Rightarrow> bool \<times> error option" where
  "IsLibrary fs path =
     (case os_Stat fs path of
        Inl err \<Rightarrow> (False, Some err)
      | Inr stat \<Rightarrow>
          if \<not> fi_IsDir stat then
            (False, Some (ErrorString ''the Quiver Library should be a dictionary''))
          else if \<not> strings_HasSuffix (fi_Name stat) ''.qvlibrary'' then
            (False, Some (ErrorString ''the Quiver Library should have .qvlibrary extension''))
          else (True, None))"

definition IsNotebook :: "fsnode \<Rightarrow> path \<Rightarrow> bool \<times> error option" where
  "IsNotebook fs path =
     (case os_Stat fs path of
        Inl err \<Rightarrow> (False, Some err)
      | Inr stat \<Rightarrow>
          if \<not> fi_IsDir stat then
            (False, Some (ErrorString ''a Quiver Notebook should be a directory''))
          else if \<not> strings_HasSuffix (fi_Name stat) ''.qvnotebook'' then
            (False, Some (ErrorString ''a Quiver Notebook should have .qvnotebook extension''))
          else (True, None))"

definition IsNote :: "fsnode \<Rightarrow> path \<Rightarrow> bool \<times> error option" where
  "IsNote fs path =
     (case os_Stat fs path of
        Inl err \<Rightarrow> (False, Some err)
      | Inr stat \<Rightarrow>
          if \<not> fi_IsDir stat then
            (False, Some (ErrorString ''a Quiver Note should be a directory''))
          else if \<not> strings_HasSuffix (fi_Name stat) ''.qvnote'' then
            (False, Some (ErrorString ''a Quiver Note should have .qvnote extension''))
          else (True, None))"

section \<open>The data tree\<close>

text \<open>
  The structs of the package. A pointer field that may be nil is an \<open>option\<close>; a slice
  of pointers is a list of options. A \<open>TimeStamp\<close> is its number of seconds since the
  epoch; the zero \<open>time.Time\<close> is January 1 of year 1, that is \<open>-62135596800\<close>.
\<close>

datatype NotebookHierarchyInfo =
  NotebookHierarchyInfo (hi_UUID: string) (hi_Children: "NotebookHierarchyInfo list")

record LibraryMetadata =
  lm_Children :: "NotebookHierarchyInfo list"

record NotebookMetadata =
  nb_Name :: string
  nb_UUID :: string

type_synonym TimeStamp = int

definition zero_TimeStamp :: TimeStamp where
  "zero_TimeStamp = - 62135596800"

record NoteMetadata =
  nm_CreatedAt :: TimeStamp
  nm_Tags :: "string list"
  nm_Title :: string
  nm_UpdatedAt :: TimeStamp
  nm_UUID :: string

record Cell =
  cell_Type :: string
  cell_Language :: string
  cell_DiagramType :: string
  cell_Data :: string

record NoteContent =
  nc_Cells :: "Cell option list"

record NoteResource =
  res_Name :: string
  res_Rel :: string
  res_Data :: string

record Note =
  note_Metadata :: "NoteMetadata option"
  note_Content :: "NoteContent option"
  note_Resources :: "NoteResource list"

record Notebook =
  nbk_Metadata :: "NotebookMetadata option"
  nbk_Notes :: "Note option list"

record Library =
  lib_Metadata :: "LibraryMetadata option"
  lib_Notebooks :: "Notebook option list"

section \<open>Decoding JSON into the structs\<close>

text \<open>
  \<open>encoding/json\<close> works in two stages. The scanner reads the first JSON value of the
  stream and rejects a text that is not JSON; it is a parameter of the model. The second
  stage stores the value into the Go struct; it is modelled here on the JSON value: a key
  selects the field whose name it equals up to the case of ASCII letters, a key that selects
  no field is skipped, \<open>null\<close> leaves a string or a struct as it is and empties a slice or a
  pointer, and a value of another kind than the field's is an \<open>UnmarshalTypeError\<close>.
  A field that no key selects is never looked at. The model follows the library on the
  documents in which every key of every object is ASCII and no object has two keys that
  select the same field (\<open>plain_keys\<close> below). On the other documents the library does
  more: it also matches the letters U+017F and U+212A of a key with \<open>s\<close> and \<open>k\<close>, and
  under a repeated key it decodes an array into the elements stored before.
\<close>

datatype json =
    JNull
  | JBool bool
  | JNumber string
  | JString string
  | JArray "json list"
  | JObject "(string \<times> json) list"

type_synonym scanner = "string \<Rightarrow> error + json"

definition ascii_lower :: "char \<Rightarrow> char" where
  "ascii_lower c =
     (let n = (of_char c :: nat) in if 65 \<le> n \<and> n \<le> 90 then char_of (n + 32) else c)"

definition fold_eq :: "string \<Rightarrow> string \<Rightarrow> bool" where
  "fold_eq k name = (map ascii_lower k = map ascii_lower name)"

fun digits_val :: "string \<Rightarrow> nat \<Rightarrow> nat option" where
  "digits_val [] acc = Some acc"
| "digits_val (c # cs) acc =
     (let n = (of_char c :: nat) in
      if 48 \<le> n \<and> n \<le> 57 then digits_val cs (10 * acc + (n - 48)) else None)"

text \<open>\<open>strconv.ParseInt(s, 10, 64)\<close>.\<close>

definition parse_int64 :: "string \<Rightarrow> int option" where
  "parse_int64 s =
     (case s of
        [] \<Rightarrow> None
      | c # cs \<Rightarrow>
          (let neg = (c = CHR ''-'');
               ds = (if c = CHR ''-'' \<or> c = CHR ''+'' then cs else s)
           in if ds = [] then None
              else (case digits_val ds 0 of
                      None \<Rightarrow> None
                    | Some n \<Rightarrow>
                        (let v = (if neg then - int n else int n)
                         in if - (2 ^ 63) \<le> v \<and> v < 2 ^ 63 then Some v else None))))"

text \<open>
  \<open>TimeStamp.UnmarshalJSON\<close>: the value is decoded into an \<open>int64\<close> that starts at 0,
  and the time stamp is set from it, also when the value is \<open>null\<close>.
\<close>

definition TimeStamp_UnmarshalJSON :: "json \<Rightarrow> error + TimeStamp" where
  "TimeStamp_UnmarshalJSON data =
     (case data of
        JNumber s \<Rightarrow> (case parse_int64 s of None \<Rightarrow> Inl UnmarshalTypeError | Some secs \<Rightarrow> Inr secs)
      | JNull \<Rightarrow> Inr 0
      | _ \<Rightarrow> Inl UnmarshalTypeError)"

definition decode_string :: "json \<Rightarrow> string \<Rightarrow> error + string" where
  "decode_string v old =
     (case v of JString s \<Rightarrow> Inr s | JNull \<Rightarrow> Inr old | _ \<Rightarrow> Inl UnmarshalTypeError)"

fun decode_list :: "(json \<Rightarrow> error + 'a) \<Rightarrow> json list \<Rightarrow> error + 'a list" where
  "decode_list elem [] = Inr []"
| "decode_list elem (j # js) =
     (case elem j of
        Inl e \<Rightarrow> Inl e
      | Inr x \<Rightarrow> (case decode_list elem js of Inl e \<Rightarrow> Inl e | Inr xs \<Rightarrow> Inr (x # xs)))"

definition decode_slice :: "(json \<Rightarrow> error + 'a) \<Rightarrow> json \<Rightarrow> error + 'a list" where
  "decode_slice elem v =
     (case v of
        JArray js \<Rightarrow> decode_list elem js
      | JNull \<Rightarrow> Inr []
      | _ \<Rightarrow> Inl UnmarshalTypeError)"

text \<open>
  The loop over the keys of an object: \<open>fld k v a\<close> is \<open>None\<close> when no field of the
  struct is selected by \<open>k\<close>, and otherwise the struct with the value stored, or the error.
\<close>

fun decode_fields ::
  "(string \<Rightarrow> json \<Rightarrow> 'a \<Rightarrow> (error + 'a) option) \<Rightarrow> (string \<times> json) list \<Rightarrow> 'a \<Rightarrow> error + 'a" where
  "decode_fields fld [] a = Inr a"
| "decode_fields fld ((k, v) # kvs) a =
     (case fld k v a of
        None \<Rightarrow> decode_fields fld kvs a
      | Some (Inl e) \<Rightarrow> Inl e
      | Some (Inr a') \<Rightarrow> decode_fields fld kvs a')"

definition decode_struct ::
  "(string \<Rightarrow> json \<Rightarrow> 'a \<Rightarrow> (error + 'a) option) \<Rightarrow> json \<Rightarrow> 'a \<Rightarrow> error + 'a" where
  "decode_struct fld v a =
     (case v of
        JObject kvs \<Rightarrow> decode_fields fld kvs a
      | JNull \<Rightarrow> Inr a
      | _ \<Rightarrow> Inl UnmarshalTypeError)"

definition store :: "(error + 'b) \<Rightarrow> ('b \<Rightarrow> 'a) \<Rightarrow> (error + 'a) option" where
  "store r upd = Some (case r of Inl e \<Rightarrow> Inl e | Inr x \<Rightarrow> Inr (upd x))"

text \<open>\<open>json.NewDecoder(r).Decode(m)\<close> on a fresh struct \<open>m\<close>.\<close>

definition json_Decode ::
  "scanner \<Rightarrow> (string \<Rightarrow> json \<Rightarrow> 'a \<Rightarrow> (error + 'a) option) \<Rightarrow> string \<Rightarrow> 'a \<Rightarrow> error + 'a" where
  "json_Decode scan fld r m =
     (case scan r of Inl e \<Rightarrow> Inl e | Inr v \<Rightarrow> decode_struct fld v m)"

fun decode_HierarchyInfo :: "json \<Rightarrow> NotebookHierarchyInfo \<Rightarrow> error + NotebookHierarchyInfo"
and decode_HierarchyInfo_fields ::
  "(string \<times> json) list \<Rightarrow> NotebookHierarchyInfo \<Rightarrow> error + NotebookHierarchyInfo"
and decode_HierarchyInfo_list :: "json list \<Rightarrow> error + NotebookHierarchyInfo list" where
  "decode_HierarchyInfo (JObject kvs) n = decode_HierarchyInfo_fields kvs n"
| "decode_HierarchyInfo JNull n = Inr n"
| "decode_HierarchyInfo (JBool _) n = Inl UnmarshalTypeError"
| "decode_HierarchyInfo (JNumber _) n = Inl UnmarshalTypeError"
| "decode_HierarchyInfo (JString _) n = Inl UnmarshalTypeError"
| "decode_HierarchyInfo (JArray _) n = Inl UnmarshalTypeError"
| "decode_HierarchyInfo_fields [] n = Inr n"
| "decode_HierarchyInfo_fields ((k, v) # kvs) n =
     (if fold_eq k ''uuid'' then
        (case decode_string v (hi_UUID n) of
           Inl e \<Rightarrow> Inl e
         | Inr s \<Rightarrow> decode_HierarchyInfo_fields kvs (NotebookHierarchyInfo s (hi_Children n)))
      else if fold_eq k ''children'' then
        (case v of
           JArray js \<Rightarrow>
             (case decode_HierarchyInfo_list js of
                Inl e \<Rightarrow> Inl e
              | Inr cs \<Rightarrow> decode_HierarchyInfo_fields kvs (NotebookHierarchyInfo (hi_UUID n) cs))
         | JNull \<Rightarrow> decode_HierarchyInfo_fields kvs (NotebookHierarchyInfo (hi_UUID n) [])
         | _ \<Rightarrow> Inl UnmarshalTypeError)
      else decode_HierarchyInfo_fields kvs n)"
| "decode_HierarchyInfo_list [] = Inr []"
| "decode_HierarchyInfo_list (j # js) =
     (case decode_HierarchyInfo j (NotebookHierarchyInfo [] []) of
        Inl e \<Rightarrow> Inl e
      | Inr c \<Rightarrow>
          (case decode_HierarchyInfo_list js of Inl e \<Rightarrow> Inl e | Inr cs \<Rightarrow> Inr (c # cs)))"

definition LibraryMetadata_field ::
  "string \<Rightarrow> json \<Rightarrow> LibraryMetadata \<Rightarrow> (error + LibraryMetadata) option" where
  "LibraryMetadata_field k v m =
     (if fold_eq k ''children'' then
        store (case v of
                 JArray js \<Rightarrow> decode_HierarchyInfo_list js
               | JNull \<Rightarrow> Inr []
               | _ \<Rightarrow> Inl UnmarshalTypeError)
          (\<lambda>cs. m\<lparr>lm_Children := cs\<rparr>)
      else None)"

definition NotebookMetadata_field ::
  "string \<Rightarrow> json \<Rightarrow> NotebookMetadata \<Rightarrow> (error + NotebookMetadata) option" where
  "NotebookMetadata_field k v m =
     (if fold_eq k ''name'' then store (decode_string v (nb_Name m)) (\<lambda>s. m\<lparr>nb_Name := s\<rparr>)
      else if fold_eq k ''uuid'' then store (decode_string v (nb_UUID m)) (\<lambda>s. m\<lparr>nb_UUID := s\<rparr>)
      else None)"

definition NoteMetadata_field ::
  "string \<Rightarrow> json \<Rightarrow> NoteMetadata \<Rightarrow> (error + NoteMetadata) option" where
  "NoteMetadata_field k v m =
     (if fold_eq k ''created_at'' then
        store (TimeStamp_UnmarshalJSON v) (\<lambda>t. m\<lparr>nm_CreatedAt := t\<rparr>)
      else if fold_eq k ''tags'' then
        store (decode_slice (\<lambda>j. decode_string j []) v) (\<lambda>ts. m\<lparr>nm_Tags := ts\<rparr>)
      else if fold_eq k ''title'' then
        store (decode_string v (nm_Title m)) (\<lambda>s. m\<lparr>nm_Title := s\<rparr>)
      else if fold_eq k ''updated_at'' then
        store (TimeStamp_UnmarshalJSON v) (\<lambda>t. m\<lparr>nm_UpdatedAt := t\<rparr>)
      else if fold_eq k ''uuid'' then
        store (decode_string v (nm_UUID m)) (\<lambda>s. m\<lparr>nm_UUID := s\<rparr>)
      else None)"

definition Cell_field :: "string \<Rightarrow> json \<Rightarrow> Cell \<Rightarrow> (error + Cell) option" where
  "Cell_field k v c =
     (if fold_eq k ''type'' then store (decode_string v (cell_Type c)) (\<lambda>s. c\<lparr>cell_Type := s\<rparr>)
      else if fold_eq k ''language'' then
        store (decode_string v (cell_Language c)) (\<lambda>s. c\<lparr>cell_Language := s\<rparr>)
      else if fold_eq k ''diagramType'' then
        store (decode_string v (cell_DiagramType c)) (\<lambda>s. c\<lparr>cell_DiagramType := s\<rparr>)
      else if fold_eq k ''data'' then store (decode_string v (cell_Data c)) (\<lambda>s. c\<lparr>cell_Data := s\<rparr>)
      else None)"

definition zero_Cell :: Cell where
  "zero_Cell = \<lparr>cell_Type = [], cell_Language = [], cell_DiagramType = [], cell_Data = []\<rparr>"

text \<open>An element of \<open>[]*Cell\<close>: \<open>null\<close> is the nil pointer, an object a new cell.\<close>

definition decode_Cell_ptr :: "json \<Rightarrow> error + Cell option" where
  "decode_Cell_ptr v =
     (case v of
        JNull \<Rightarrow> Inr None
      | JObject kvs \<Rightarrow>
          (case decode_fields Cell_field kvs zero_Cell of Inl e \<Rightarrow> Inl e | Inr c \<Rightarrow> Inr (Some c))
      | _ \<Rightarrow> Inl UnmarshalTypeError)"

definition NoteContent_field ::
  "string \<Rightarrow> json \<Rightarrow> NoteContent \<Rightarrow> (error + NoteContent) option" where
  "NoteContent_field k v n =
     (if fold_eq k ''cells'' then store (decode_slice decode_Cell_ptr v) (\<lambda>cs. n\<lparr>nc_Cells := cs\<rparr>)
      else None)"

definition zero_LibraryMetadata :: LibraryMetadata where
  "zero_LibraryMetadata = \<lparr>lm_Children = []\<rparr>"

definition zero_NotebookMetadata :: NotebookMetadata where
  "zero_NotebookMetadata = \<lparr>nb_Name = [], nb_UUID = []\<rparr>"

definition zero_NoteMetadata :: NoteMetadata where
  "zero_NoteMetadata =
     \<lparr>nm_CreatedAt = zero_TimeStamp, nm_Tags = [], nm_Title = [],
      nm_UpdatedAt = zero_TimeStamp, nm_UUID = []\<rparr>"

definition zero_NoteContent :: NoteContent where
  "zero_NoteContent = \<lparr>nc_Cells = []\<rparr>"

section \<open>Entity parsers\<close>

definition ParseLibraryMetadata :: "scanner \<Rightarrow> string \<Rightarrow> error + LibraryMetadata" where
  "ParseLibraryMetadata scan r =
     (case json_Decode scan LibraryMetadata_field r zero_LibraryMetadata of
        Inl err \<Rightarrow> Inl err
      | Inr m \<Rightarrow> Inr m)"

definition ParseNotebookMetadata :: "scanner \<Rightarrow> string \<Rightarrow> error + NotebookMetadata" where
  "ParseNotebookMetadata scan r =
     (case json_Decode scan NotebookMetadata_field r zero_NotebookMetadata of
        Inl err \<Rightarrow> Inl err
      | Inr m \<Rightarrow> Inr m)"

definition ParseNoteMetadata :: "scanner \<Rightarrow> string \<Rightarrow> error + NoteMetadata" where
  "ParseNoteMetadata scan r =
     (case json_Decode scan NoteMetadata_field r zero_NoteMetadata of
        Inl err \<Rightarrow> Inl err
      | Inr m \<Rightarrow> Inr m)"

definition ParseContent :: "scanner \<Rightarrow> string \<Rightarrow> error + NoteContent" where
  "ParseContent scan r =
     (case json_Decode scan NoteContent_field r zero_NoteContent of
        Inl err \<Rightarrow> Inl err
      | Inr n \<Rightarrow> Inr n)"

section \<open>Tree loader\<close>

definition filepath_Join :: "string \<Rightarrow> string \<Rightarrow> string" where
  "filepath_Join rel name = (if rel = [] then name else rel @ ''/'' @ name)"

text \<open>
  The walk over the resources directory follows the tree downwards, so it ends: the node at
  a path that \<open>os.Stat\<close> finds below \<open>p\<close> is smaller than the node at \<open>p\<close>.
\<close>

definition node_at :: "fsnode \<Rightarrow> path \<Rightarrow> nat" where
  "node_at fs p = (case lookup fs p of Inl _ \<Rightarrow> 0 | Inr n \<Rightarrow> size n)"

lemma lookup_not_link: "lookup n p \<noteq> Inr DanglingLink"
  by (induction n p rule: lookup.induct) (auto split: fsnode.splits option.splits)

lemma size_child: "map_of es x = Some c \<Longrightarrow> size c < size (Dir r es)"
  by (induction es) (auto split: if_splits)

lemma lookup_snoc:
  "lookup n (p @ [x]) =
     (case lookup n p of
        Inl en \<Rightarrow> Inl en
      | Inr (File _ _) \<Rightarrow> Inl ENOTDIR
      | Inr DanglingLink \<Rightarrow> Inl ENOENT
      | Inr (Dir _ es) \<Rightarrow>
          (case map_of es x of
             None \<Rightarrow> Inl ENOENT
           | Some DanglingLink \<Rightarrow> Inl ENOENT
           | Some c \<Rightarrow> Inr c))"
  by (induction n p rule: lookup.induct) (auto split: fsnode.splits option.splits sum.splits)

lemma node_at_child:
  "os_Stat fs (p @ [x]) = Inr st \<Longrightarrow> node_at fs (p @ [x]) < node_at fs p"
  using size_child
  by (fastforce simp: os_Stat_def node_at_def lookup_snoc
      split: sum.splits fsnode.splits option.splits)

function ReadNoteResources :: "fsnode \<Rightarrow> path \<Rightarrow> string \<Rightarrow> error + NoteResource list"
and ReadNoteResources_loop ::
  "fsnode \<Rightarrow> path \<Rightarrow> string \<Rightarrow> FileInfo list \<Rightarrow> NoteResource list \<Rightarrow> error + NoteResource list" where
  "ReadNoteResources fs path rel =
     (case os_Stat fs path of
        Inl err \<Rightarrow> Inl err
      | Inr stat \<Rightarrow>
          if \<not> fi_IsDir stat then
            Inl (ErrorString ''quiver Note Resources should be held in a directory'')
          else
            (case ioutil_ReadDir fs path of
               Inl err \<Rightarrow> Inl err
             | Inr files \<Rightarrow> ReadNoteResources_loop fs path rel files []))"
| "ReadNoteResources_loop fs path rel [] res = Inr res"
| "ReadNoteResources_loop fs path rel (file # files) res =
     (case os_Stat fs (path @ [fi_Name file]) of
        Inl err \<Rightarrow> Inl err
      | Inr stat \<Rightarrow>
          if fi_IsDir stat then
            (case ReadNoteResources fs (path @ [fi_Name file]) (filepath_Join rel (fi_Name file)) of
               Inl err \<Rightarrow> Inl err
             | Inr r \<Rightarrow> ReadNoteResources_loop fs path rel files (res @ r))
          else
            (case read_all fs (path @ [fi_Name file]) of
               Inl err \<Rightarrow> Inl err
             | Inr buf \<Rightarrow>
                 ReadNoteResources_loop fs path rel files
                   (res @ [\<lparr>res_Name = fi_Name file, res_Rel = rel, res_Data = buf\<rparr>])))"
  by pat_completeness auto
termination
  apply (relation "inv_image (less_than <*lex*> less_than <*lex*> less_than)
     (\<lambda>x. case x of
        Inl (fs, p, rel) \<Rightarrow> (node_at fs p, Suc 0, 0)
      | Inr (fs, p, rel, files, res) \<Rightarrow> (node_at fs p, 0, length files))")
       apply (auto simp: node_at_child)
  done

definition ReadLibraryMetadata :: "scanner \<Rightarrow> fsnode \<Rightarrow> path \<Rightarrow> error + LibraryMetadata" where
  "ReadLibraryMetadata scan fs path =
     (case read_all fs path of Inl err \<Rightarrow> Inl err | Inr buf \<Rightarrow> ParseLibraryMetadata scan buf)"

definition ReadNotebookMetadata :: "scanner \<Rightarrow> fsnode \<Rightarrow> path \<Rightarrow> error + NotebookMetadata" where
  "ReadNotebookMetadata scan fs path =
     (case read_all fs path of Inl err \<Rightarrow> Inl err | Inr buf \<Rightarrow> ParseNotebookMetadata scan buf)"

definition ReadNoteMetadata :: "scanner \<Rightarrow> fsnode \<Rightarrow> path \<Rightarrow> error + NoteMetadata" where
  "ReadNoteMetadata scan fs path =
     (case read_all fs path of Inl err \<Rightarrow> Inl err | Inr buf \<Rightarrow> ParseNoteMetadata scan buf)"

definition ReadNoteContent :: "scanner \<Rightarrow> fsnode \<Rightarrow> path \<Rightarrow> error + NoteContent" where
  "ReadNoteContent scan fs path =
     (case read_all fs path of Inl err \<Rightarrow> Inl err | Inr buf \<Rightarrow> ParseContent scan buf)"

definition ReadNote :: "scanner \<Rightarrow> fsnode \<Rightarrow> path \<Rightarrow> bool \<Rightarrow> error + Note" where
  "ReadNote scan fs path loadResources =
     (case snd (IsNote fs path) of
        Some err \<Rightarrow> Inl err
      | None \<Rightarrow>
          (case ReadNoteMetadata scan fs (path @ [''meta.json'']) of
             Inl err \<Rightarrow> Inl err
           | Inr m \<Rightarrow>
               (case ReadNoteContent scan fs (path @ [''content.json'']) of
                  Inl err \<Rightarrow> Inl err
                | Inr c \<Rightarrow>
                    if loadResources then
                      (case ReadNoteResources fs (path @ [''resources'']) [] of
                         Inl err \<Rightarrow>
                           if \<not> os_IsNotExist err then Inl err
                           else Inr \<lparr>note_Metadata = Some m, note_Content = Some c,
                                     note_Resources = []\<rparr>
                       | Inr res \<Rightarrow>
                           Inr \<lparr>note_Metadata = Some m, note_Content = Some c,
                                note_Resources = res\<rparr>)
                    else Inr \<lparr>note_Metadata = Some m, note_Content = Some c,
                              note_Resources = []\<rparr>)))"

text \<open>
  The loop of \<open>ReadNotebook\<close>: \<open>i\<close> is the index of the entry among all the entries of
  the directory, and a loaded note is written at \<open>notes[i]\<close>. A write outside the slice
  panics.
\<close>

fun ReadNotebook_loop ::
  "scanner \<Rightarrow> fsnode \<Rightarrow> path \<Rightarrow> bool \<Rightarrow> nat \<Rightarrow> FileInfo list \<Rightarrow> NotebookMetadata option \<Rightarrow>
   Note option list \<Rightarrow> (error + Notebook) exec" where
  "ReadNotebook_loop scan fs path loadResources i [] metadata notes =
     Done (Inr \<lparr>nbk_Metadata = metadata, nbk_Notes = notes\<rparr>)"
| "ReadNotebook_loop scan fs path loadResources i (f # files) metadata notes =
     (if fi_Name f = ''meta.json'' then
        (case ReadNotebookMetadata scan fs (path @ [fi_Name f]) of
           Inl err \<Rightarrow> Done (Inl err)
         | Inr m \<Rightarrow> ReadNotebook_loop scan fs path loadResources (Suc i) files (Some m) notes)
      else
        (case ReadNote scan fs (path @ [fi_Name f]) loadResources of
           Inl err \<Rightarrow> Done (Inl err)
         | Inr n \<Rightarrow>
             if i < length notes then
               ReadNotebook_loop scan fs path loadResources (Suc i) files metadata
                 (notes[i := Some n])
             else Panic (IndexOutOfRange i (length notes))))"

definition ReadNotebook :: "scanner \<Rightarrow> fsnode \<Rightarrow> path \<Rightarrow> bool \<Rightarrow> (error + Notebook) exec" where
  "ReadNotebook scan fs path loadResources =
     (case snd (IsNotebook fs path) of
        Some err \<Rightarrow> Done (Inl err)
      | None \<Rightarrow>
          (case ioutil_ReadDir fs path of
             Inl err \<Rightarrow> Done (Inl err)
           | Inr files \<Rightarrow>
               (let numNotes = (if length files > 1 then length files - 1 else 0)
                in ReadNotebook_loop scan fs path loadResources 0 files None
                     (replicate numNotes None))))"

fun ReadLibrary_loop ::
  "scanner \<Rightarrow> fsnode \<Rightarrow> path \<Rightarrow> bool \<Rightarrow> FileInfo list \<Rightarrow> LibraryMetadata option \<Rightarrow>
   Notebook option list \<Rightarrow> (error + Library) exec" where
  "ReadLibrary_loop scan fs path loadResources [] metadata notebooks =
     Done (Inr \<lparr>lib_Metadata = metadata, lib_Notebooks = notebooks\<rparr>)"
| "ReadLibrary_loop scan fs path loadResources (f # files) metadata notebooks =
     (if fi_Name f = ''meta.json'' then
        (case ReadLibraryMetadata scan fs (path @ [fi_Name f]) of
           Inl err \<Rightarrow> Done (Inl err)
         | Inr m \<Rightarrow> ReadLibrary_loop scan fs path loadResources files (Some m) notebooks)
      else
        (case ReadNotebook scan fs (path @ [fi_Name f]) loadResources of
           Panic p \<Rightarrow> Panic p
         | Done (Inl err) \<Rightarrow> Done (Inl err)
         | Done (Inr n) \<Rightarrow>
             ReadLibrary_loop scan fs path loadResources files metadata (notebooks @ [Some n])))"

definition ReadLibrary :: "scanner \<Rightarrow> fsnode \<Rightarrow> path \<Rightarrow> bool \<Rightarrow> (error + Library) exec" where
  "ReadLibrary scan fs path loadResources =
     (case snd (IsLibrary fs path) of
        Some err \<Rightarrow> Done (Inl err)
      | None \<Rightarrow>
          (case ioutil_ReadDir fs path of
             Inl err \<Rightarrow> Done (Inl err)
           | Inr files \<Rightarrow> ReadLibrary_loop scan fs path loadResources files None []))"

text \<open>An entry of a notebook directory that is not \<open>meta.json\<close> and loads as a note.\<close>

definition loads_note :: "scanner \<Rightarrow> fsnode \<Rightarrow> path \<Rightarrow> bool \<Rightarrow> FileInfo \<Rightarrow> Note \<Rightarrow> bool" where
  "loads_note scan fs p lr f n \<longleftrightarrow>
     fi_Name f \<noteq> ''meta.json'' \<and> ReadNote scan fs (p @ [fi_Name f]) lr = Inr n"

section \<open>Hierarchy walker\<close>

text \<open>
  \<open>walkNotebooksHierarchy\<close> passes the list of parents as a Go slice and extends it with
  \<open>append\<close>, which writes into the backing array when the slice has spare capacity and
  allocates a new array otherwise. Two slices may therefore share an array. The model keeps
  the arrays in a heap (a list of arrays, addressed by position); a slice is an array, a
  length and a capacity. The capacity of a newly allocated array is decided by the run time
  and is the parameter \<open>grow\<close>.
\<close>

type_synonym heap = "string list list"

record slice =
  sl_arr :: nat
  sl_len :: nat
  sl_cap :: nat

definition backing :: "heap \<Rightarrow> nat \<Rightarrow> string list" where
  "backing h a = (if a < length h then h ! a else [])"

definition slice_elems :: "heap \<Rightarrow> slice \<Rightarrow> string list" where
  "slice_elems h s = take (sl_len s) (backing h (sl_arr s))"

definition go_append :: "(nat \<Rightarrow> nat) \<Rightarrow> heap \<Rightarrow> slice \<Rightarrow> string \<Rightarrow> heap \<times> slice" where
  "go_append grow h s x =
     (if sl_len s < sl_cap s then
        (h[sl_arr s := (backing h (sl_arr s))[sl_len s := x]], s\<lparr>sl_len := Suc (sl_len s)\<rparr>)
      else
        (h @ [slice_elems h s @ x # replicate (grow (sl_cap s) - Suc (sl_len s)) []],
         \<lparr>sl_arr = length h, sl_len = Suc (sl_len s), sl_cap = grow (sl_cap s)\<rparr>))"

text \<open>
  The visitor \<open>f\<close> receives the UUID of the node and the elements of the slice of parents
  as they are when it is called, and threads a state of its own; \<open>walk_each\<close> is the loop
  over a list of nodes, which stops at the first error.
\<close>

fun walkNotebooksHierarchy ::
  "(nat \<Rightarrow> nat) \<Rightarrow> (string \<Rightarrow> string list \<Rightarrow> 's \<Rightarrow> 'e option \<times> 's) \<Rightarrow> NotebookHierarchyInfo \<Rightarrow>
   slice \<Rightarrow> heap \<Rightarrow> 's \<Rightarrow> 'e option \<times> heap \<times> 's"
and walk_each ::
  "(nat \<Rightarrow> nat) \<Rightarrow> (string \<Rightarrow> string list \<Rightarrow> 's \<Rightarrow> 'e option \<times> 's) \<Rightarrow> NotebookHierarchyInfo list \<Rightarrow>
   slice \<Rightarrow> heap \<Rightarrow> 's \<Rightarrow> 'e option \<times> heap \<times> 's" where
  "walkNotebooksHierarchy grow f (NotebookHierarchyInfo uuid children) parents h st =
     (case f uuid (slice_elems h parents) st of
        (Some err, st') \<Rightarrow> (Some err, h, st')
      | (None, st') \<Rightarrow>
          if length children > 0 then
            walk_each grow f children (snd (go_append grow h parents uuid))
              (fst (go_append grow h parents uuid)) st'
          else (None, h, st'))"
| "walk_each grow f [] p h st = (None, h, st)"
| "walk_each grow f (c # cs) p h st =
     (case walkNotebooksHierarchy grow f c p h st of
        (Some err, h', st') \<Rightarrow> (Some err, h', st')
      | (None, h', st') \<Rightarrow> walk_each grow f cs p h' st')"

text \<open>
  The index of the notebooks by UUID, built in the order of the list: a nil notebook or a
  notebook without metadata is a nil dereference.
\<close>

fun build_index ::
  "Notebook option list \<Rightarrow> (string \<Rightarrow> Notebook option) \<Rightarrow> (string \<Rightarrow> Notebook option) exec" where
  "build_index [] notebooks = Done notebooks"
| "build_index (None # ns) notebooks = Panic NilDereference"
| "build_index (Some n # ns) notebooks =
     (case nbk_Metadata n of
        None \<Rightarrow> Panic NilDereference
      | Some md \<Rightarrow> build_index ns (notebooks(nb_UUID md := Some n)))"

definition WalkNotebooksHierarchy ::
  "(nat \<Rightarrow> nat) \<Rightarrow> Library \<Rightarrow> (Notebook option \<Rightarrow> Notebook option list \<Rightarrow> 's \<Rightarrow> 'e option \<times> 's) \<Rightarrow>
   's \<Rightarrow> ('e option \<times> 's) exec" where
  "WalkNotebooksHierarchy grow m f st =
     (case build_index (lib_Notebooks m) (\<lambda>u. None) of
        Panic q \<Rightarrow> Panic q
      | Done notebooks \<Rightarrow>
          (case lib_Metadata m of
             None \<Rightarrow> Panic NilDereference
           | Some md \<Rightarrow>
               (case walk_each grow (\<lambda>c parents. f (notebooks c) (map notebooks parents))
                       (lm_Children md) \<lparr>sl_arr = 0, sl_len = 0, sl_cap = 0\<rparr> [[]] st of
                  (err, h, st') \<Rightarrow> Done (err, st'))))"

text \<open>
  The traversal the specification describes: every node once, before its children, the
  children in the declared order, each with its ancestors from the root down. A UUID is
  resolved to the last notebook of the list that carries it.
\<close>

fun preorder :: "string list \<Rightarrow> NotebookHierarchyInfo \<Rightarrow> (string \<times> string list) list" where
  "preorder anc (NotebookHierarchyInfo uuid children) =
     (uuid, anc) # concat (map (preorder (anc @ [uuid])) children)"

definition forest_preorder :: "NotebookHierarchyInfo list \<Rightarrow> (string \<times> string list) list" where
  "forest_preorder roots = concat (map (preorder []) roots)"

fun run_visits :: "('a \<Rightarrow> 's \<Rightarrow> 'e option \<times> 's) \<Rightarrow> 'a list \<Rightarrow> 's \<Rightarrow> 'e option \<times> 's" where
  "run_visits f [] st = (None, st)"
| "run_visits f (v # vs) st =
     (case f v st of (Some err, st') \<Rightarrow> (Some err, st') | (None, st') \<Rightarrow> run_visits f vs st')"

fun count_nodes :: "NotebookHierarchyInfo \<Rightarrow> nat" where
  "count_nodes (NotebookHierarchyInfo uuid children) = Suc (sum_list (map count_nodes children))"

fun all_present :: "Notebook option list \<Rightarrow> bool" where
  "all_present [] = True"
| "all_present (None # ns) = False"
| "all_present (Some n # ns) = (nbk_Metadata n \<noteq> None \<and> all_present ns)"

fun has_uuid :: "string \<Rightarrow> Notebook option \<Rightarrow> bool" where
  "has_uuid u None = False"
| "has_uuid u (Some n) = (case nbk_Metadata n of None \<Rightarrow> False | Some md \<Rightarrow> nb_UUID md = u)"

fun resolve :: "Notebook option list \<Rightarrow> string \<Rightarrow> Notebook option" where
  "resolve [] u = None"
| "resolve (x # xs) u =
     (case resolve xs u of Some n \<Rightarrow> Some n | None \<Rightarrow> if has_uuid u x then x else None)"

definition visit_with ::
  "(Notebook option \<Rightarrow> Notebook option list \<Rightarrow> 's \<Rightarrow> 'e option \<times> 's) \<Rightarrow> Notebook option list \<Rightarrow>
   string \<times> string list \<Rightarrow> 's \<Rightarrow> 'e option \<times> 's" where
  "visit_with f nbs v st = f (resolve nbs (fst v)) (map (resolve nbs) (snd v)) st"

definition record_visit ::
  "Notebook option \<Rightarrow> Notebook option list \<Rightarrow> (Notebook option \<times> Notebook option list) list \<Rightarrow>
   unit option \<times> (Notebook option \<times> Notebook option list) list" where
  "record_visit n parents st = (None, st @ [(n, parents)])"

text \<open>The invariant of the walk: what a call may change in the heap.\<close>

definition wf_slice :: "heap \<Rightarrow> slice \<Rightarrow> bool" where
  "wf_slice h s \<longleftrightarrow>
     sl_arr s < length h \<and> length (h ! sl_arr s) = sl_cap s \<and> sl_len s \<le> sl_cap s"

definition frame :: "slice \<Rightarrow> heap \<Rightarrow> heap \<Rightarrow> bool" where
  "frame s h h' \<longleftrightarrow>
     length h \<le> length h' \<and>
     (\<forall>a<length h. length (h' ! a) = length (h ! a) \<and> (a \<noteq> sl_arr s \<longrightarrow> h' ! a = h ! a)) \<and>
     take (sl_len s) (h' ! sl_arr s) = take (sl_len s) (h ! sl_arr s)"

definition visits_ok ::
  "(string \<Rightarrow> string list \<Rightarrow> 's \<Rightarrow> 'e option \<times> 's) \<Rightarrow> (string \<times> string list) list \<Rightarrow> slice \<Rightarrow>
   heap \<Rightarrow> 's \<Rightarrow> 'e option \<times> heap \<times> 's \<Rightarrow> bool" where
  "visits_ok f vs s h st r \<longleftrightarrow>
     (fst r, snd (snd r)) = run_visits (\<lambda>(u, anc). f u anc) vs st \<and> frame s h (fst (snd r))"

section \<open>The documents the decoders accept\<close>

text \<open>
  The shape of a JSON value that decodes into each struct: the value is \<open>null\<close> or an
  object, and every key that selects a field holds a value of the field's kind or \<open>null\<close>.
  Nothing is asked of a key that selects no field, and no key has to be there.
\<close>

fun string_or_null :: "json \<Rightarrow> bool" where
  "string_or_null (JString _) = True"
| "string_or_null JNull = True"
| "string_or_null _ = False"

fun timestamp_ok :: "json \<Rightarrow> bool" where
  "timestamp_ok (JNumber s) = (parse_int64 s \<noteq> None)"
| "timestamp_ok JNull = True"
| "timestamp_ok _ = False"

fun fields_ok :: "(string \<Rightarrow> json \<Rightarrow> bool) \<Rightarrow> (string \<times> json) list \<Rightarrow> bool" where
  "fields_ok ok [] = True"
| "fields_ok ok ((k, v) # kvs) = (ok k v \<and> fields_ok ok kvs)"

fun struct_ok :: "(string \<Rightarrow> json \<Rightarrow> bool) \<Rightarrow> json \<Rightarrow> bool" where
  "struct_ok ok (JObject kvs) = fields_ok ok kvs"
| "struct_ok ok JNull = True"
| "struct_ok ok _ = False"

fun slice_ok :: "(json \<Rightarrow> bool) \<Rightarrow> json \<Rightarrow> bool" where
  "slice_ok ok (JArray js) = list_all ok js"
| "slice_ok ok JNull = True"
| "slice_ok ok _ = False"

fun hierarchy_ok :: "json \<Rightarrow> bool"
and hierarchy_fields_ok :: "(string \<times> json) list \<Rightarrow> bool"
and hierarchy_list_ok :: "json list \<Rightarrow> bool" where
  "hierarchy_ok (JObject kvs) = hierarchy_fields_ok kvs"
| "hierarchy_ok JNull = True"
| "hierarchy_ok (JBool _) = False"
| "hierarchy_ok (JNumber _) = False"
| "hierarchy_ok (JString _) = False"
| "hierarchy_ok (JArray _) = False"
| "hierarchy_fields_ok [] = True"
| "hierarchy_fields_ok ((k, v) # kvs) =
     ((if fold_eq k ''uuid'' then string_or_null v
       else if fold_eq k ''children'' then
         (case v of JArray js \<Rightarrow> hierarchy_list_ok js | JNull \<Rightarrow> True | _ \<Rightarrow> False)
       else True) \<and>
      hierarchy_fields_ok kvs)"
| "hierarchy_list_ok [] = True"
| "hierarchy_list_ok (j # js) = (hierarchy_ok j \<and> hierarchy_list_ok js)"

definition LibraryMetadata_ok :: "string \<Rightarrow> json \<Rightarrow> bool" where
  "LibraryMetadata_ok k v =
     (if fold_eq k ''children'' then
        (case v of JArray js \<Rightarrow> hierarchy_list_ok js | JNull \<Rightarrow> True | _ \<Rightarrow> False)
      else True)"

definition NotebookMetadata_ok :: "string \<Rightarrow> json \<Rightarrow> bool" where
  "NotebookMetadata_ok k v =
     (if fold_eq k ''name'' \<or> fold_eq k ''uuid'' then string_or_null v else True)"

definition NoteMetadata_ok :: "string \<Rightarrow> json \<Rightarrow> bool" where
  "NoteMetadata_ok k v =
     (if fold_eq k ''created_at'' \<or> fold_eq k ''updated_at'' then timestamp_ok v
      else if fold_eq k ''tags'' then slice_ok string_or_null v
      else if fold_eq k ''title'' \<or> fold_eq k ''uuid'' then string_or_null v
      else True)"

definition Cell_ok :: "string \<Rightarrow> json \<Rightarrow> bool" where
  "Cell_ok k v =
     (if fold_eq k ''type'' \<or> fold_eq k ''language'' \<or> fold_eq k ''diagramType'' \<or>
         fold_eq k ''data''
      then string_or_null v else True)"

definition NoteContent_ok :: "string \<Rightarrow> json \<Rightarrow> bool" where
  "NoteContent_ok k v =
     (if fold_eq k ''cells'' then slice_ok (struct_ok Cell_ok) v else True)"

text \<open>The keys that select a field of each struct, and the fields of an object they select.\<close>

definition LibraryMetadata_key :: "string \<Rightarrow> bool" where
  "LibraryMetadata_key k = fold_eq k ''children''"

definition NotebookMetadata_key :: "string \<Rightarrow> bool" where
  "NotebookMetadata_key k = (fold_eq k ''name'' \<or> fold_eq k ''uuid'')"

definition NoteMetadata_key :: "string \<Rightarrow> bool" where
  "NoteMetadata_key k =
     (fold_eq k ''created_at'' \<or> fold_eq k ''tags'' \<or> fold_eq k ''title'' \<or>
      fold_eq k ''updated_at'' \<or> fold_eq k ''uuid'')"

definition NoteContent_key :: "string \<Rightarrow> bool" where
  "NoteContent_key k = fold_eq k ''cells''"

definition known_fields :: "(string \<Rightarrow> bool) \<Rightarrow> (string \<times> json) list \<Rightarrow> (string \<times> json) list" where
  "known_fields key kvs = filter (\<lambda>kv. key (fst kv)) kvs"

text \<open>
  The documents on which the model follows the library: every key of every object is ASCII,
  and no object has two keys that select the same field.
\<close>

definition ascii_key :: "string \<Rightarrow> bool" where
  "ascii_key k = list_all (\<lambda>c. (of_char c :: nat) < 128) k"

definition field_names :: "string list" where
  "field_names =
     [''children'', ''uuid'', ''name'', ''created_at'', ''tags'', ''title'', ''updated_at'',
      ''cells'', ''type'', ''language'', ''diagramType'', ''data'']"

definition selected_once :: "(string \<times> json) list \<Rightarrow> bool" where
  "selected_once kvs =
     list_all (\<lambda>name. length (filter (\<lambda>kv. fold_eq (fst kv) name) kvs) \<le> 1) field_names"

fun plain_keys :: "json \<Rightarrow> bool"
and plain_fields :: "(string \<times> json) list \<Rightarrow> bool"
and plain_list :: "json list \<Rightarrow> bool" where
  "plain_keys (JObject kvs) = (selected_once kvs \<and> plain_fields kvs)"
| "plain_keys (JArray js) = plain_list js"
| "plain_keys JNull = True"
| "plain_keys (JBool _) = True"
| "plain_keys (JNumber _) = True"
| "plain_keys (JString _) = True"
| "plain_fields [] = True"
| "plain_fields ((k, v) # kvs) = (ascii_key k \<and> plain_keys v \<and> plain_fields kvs)"
| "plain_list [] = True"
| "plain_list (j # js) = (plain_keys j \<and> plain_list js)"

text \<open>A decoder returns a value when the shape is right and a type error when it is not.\<close>

definition decodes :: "(error + 'a) \<Rightarrow> bool \<Rightarrow> bool" where
  "decodes r ok \<longleftrightarrow> (if ok then (\<exists>x. r = Inr x) else r = Inl UnmarshalTypeError)"

section \<open>Resource codec\<close>

text \<open>
  \<open>NoteResource.MarshalJSON\<close> builds the data URI from the MIME type of the file
  extension and the payload in unpadded URL-safe Base64, and marshals it with the name.
  The table of MIME types belongs to the platform and the rendering of a JSON value as text
  to \<open>encoding/json\<close>; both are parameters.
\<close>

type_synonym mime_table = "(string \<times> string) list"

definition mime_TypeByExtension :: "mime_table \<Rightarrow> string \<Rightarrow> string" where
  "mime_TypeByExtension tbl ext =
     (case map_of tbl ext of
        Some t \<Rightarrow> t
      | None \<Rightarrow> (case map_of tbl (map ascii_lower ext) of Some t \<Rightarrow> t | None \<Rightarrow> []))"

fun ext_scan :: "string \<Rightarrow> string \<Rightarrow> string" where
  "ext_scan [] acc = []"
| "ext_scan (c # cs) acc =
     (if c = CHR ''/'' then []
      else if c = CHR ''.'' then c # acc
      else ext_scan cs (c # acc))"

definition filepath_Ext :: "string \<Rightarrow> string" where
  "filepath_Ext path = ext_scan (rev path) []"

definition encodeURL :: string where
  "encodeURL = ''ABCDEFGHIJKLMNOPQRSTUVWXYZabcdefghijklmnopqrstuvwxyz0123456789-_''"

definition enc :: "nat \<Rightarrow> char" where
  "enc i = encodeURL ! (i mod 64)"

fun EncodeToString :: "string \<Rightarrow> string" where
  "EncodeToString (a # b # c # src) =
     (let val = of_char a * 65536 + of_char b * 256 + (of_char c :: nat)
      in enc (val div 262144) # enc (val div 4096) # enc (val div 64) # enc val #
         EncodeToString src)"
| "EncodeToString [a, b] =
     (let val = of_char a * 65536 + of_char b * (256 :: nat)
      in [enc (val div 262144), enc (val div 4096), enc (val div 64)])"
| "EncodeToString [a] =
     (let val = of_char a * (65536 :: nat) in [enc (val div 262144), enc (val div 4096)])"
| "EncodeToString [] = []"

definition MarshalJSON :: "(json \<Rightarrow> string) \<Rightarrow> mime_table \<Rightarrow> NoteResource \<Rightarrow> string \<times> error option" where
  "MarshalJSON render tbl n =
     (let ext = filepath_Ext (res_Name n);
          mimeType = mime_TypeByExtension tbl ext;
          b64 = EncodeToString (res_Data n);
          url = ''data:'' @ mimeType @ '','' @ b64
      in (render (JObject [(''Name'', JString (res_Name n)), (''Data'', JString url)]), None))"

text \<open>
  \<open>base64.RawURLEncoding.DecodeString\<close>: four characters of the alphabet give three
  bytes, a rest of two or three gives one or two, a rest of one is corrupt; line breaks are
  skipped and any other character is corrupt at its offset.
\<close>

fun index_of :: "char \<Rightarrow> string \<Rightarrow> nat \<Rightarrow> nat option" where
  "index_of c [] i = None"
| "index_of c (x # xs) i = (if c = x then Some i else index_of c xs (Suc i))"

definition decodeMap :: "char \<Rightarrow> nat option" where
  "decodeMap c = index_of c encodeURL 0"

definition byte :: "nat \<Rightarrow> char" where
  "byte n = char_of (n mod 256)"

fun decode_loop :: "string \<Rightarrow> nat \<Rightarrow> nat list \<Rightarrow> string \<Rightarrow> error + string" where
  "decode_loop [] si dbuf out =
     (case dbuf of
        [] \<Rightarrow> Inr out
      | [a] \<Rightarrow> Inl (CorruptInputError (si - 1))
      | [a, b] \<Rightarrow> Inr (out @ [byte (a * 4 + b div 16)])
      | a # b # c # _ \<Rightarrow> Inr (out @ [byte (a * 4 + b div 16), byte (b * 16 + c div 4)]))"
| "decode_loop (x # src) si dbuf out =
     (if x = CHR 0x0A \<or> x = CHR 0x0D then decode_loop src (Suc si) dbuf out
      else
        (case decodeMap x of
           None \<Rightarrow> Inl (CorruptInputError si)
         | Some v \<Rightarrow>
             (case dbuf of
                [a, b, c] \<Rightarrow>
                  decode_loop src (Suc si) []
                    (out @ [byte (a * 4 + b div 16), byte (b * 16 + c div 4), byte (c * 64 + v)])
              | _ \<Rightarrow> decode_loop src (Suc si) (dbuf @ [v]) out)))"

definition DecodeString :: "string \<Rightarrow> error + string" where
  "DecodeString s = decode_loop s 0 [] []"

fun strings_SplitN2 :: "string \<Rightarrow> string \<Rightarrow> string list" where
  "strings_SplitN2 [] acc = [rev acc]"
| "strings_SplitN2 (c # cs) acc =
     (if c = CHR '','' then [rev acc, cs] else strings_SplitN2 cs (c # acc))"

text \<open>
  \<open>NoteResource.UnmarshalJSON\<close> calls \<open>json.Unmarshal(data, aux)\<close> with the struct
  \<open>aux\<close> itself, not a pointer to it. \<open>json.Unmarshal\<close> checks that the text is valid
  JSON (the parameter \<open>valid\<close>) and then refuses a target that is not a pointer, so it
  returns an error on every input and \<open>aux\<close> keeps its zero fields.
\<close>

definition json_Unmarshal_value :: "scanner \<Rightarrow> string \<Rightarrow> error option" where
  "json_Unmarshal_value valid data =
     (case valid data of Inl err \<Rightarrow> Some err | Inr v \<Rightarrow> Some InvalidUnmarshalError)"

definition UnmarshalJSON :: "scanner \<Rightarrow> NoteResource \<Rightarrow> string \<Rightarrow> NoteResource \<times> error option" where
  "UnmarshalJSON valid u data =
     (let aux_Name = []; aux_URL = [] in
      case json_Unmarshal_value valid data of
        Some err \<Rightarrow> (u, Some err)
      | None \<Rightarrow>
          (let u = u\<lparr>res_Name := aux_Name\<rparr> in
           if \<not> strings_HasPrefix aux_URL ''data:'' then
             (u, Some (ErrorString (''invalid data URL '' @ aux_URL)))
           else
             (case strings_SplitN2 aux_URL [] of
                [a, b] \<Rightarrow>
                  (case DecodeString b of
                     Inl err \<Rightarrow> (u, Some err)
                   | Inr resData \<Rightarrow> (u\<lparr>res_Data := resData\<rparr>, None))
              | _ \<Rightarrow> (u, Some (ErrorString (''data URL '' @ aux_URL))))))"

section \<open>A fixture library\<close>

text \<open>
  The texts of the four kinds of JSON file and the values the scanner reads from them, and
  a small library on disk: one notebook with two notes, the second with resources. The
  scanner of the fixture knows these texts; the text \<open>{\<close> ends inside a value, for which
  the decoder returns \<open>io.ErrUnexpectedEOF\<close>, and the empty text gives \<open>io.EOF\<close>. The other
  texts of the fixture (\<open>Bud1\<close>, \<open>hello\<close>) begin with a byte that starts no JSON value,
  a syntax error.
\<close>

definition lib_meta_text :: string where
  \<open>lib_meta_text = ''{"children":[{"uuid":"FIXTURE","children":[]}]}''\<close>

definition lib_meta_json :: json where
  "lib_meta_json =
     JObject [(''children'',
       JArray [JObject [(''uuid'', JString ''FIXTURE''), (''children'', JArray [])]])]"

definition nb_meta_text :: string where
  \<open>nb_meta_text = ''{"name":"Quiver Test","uuid":"FIXTURE"}''\<close>

definition nb_meta_json :: json where
  "nb_meta_json = JObject [(''name'', JString ''Quiver Test''), (''uuid'', JString ''FIXTURE'')]"

definition note_meta_text :: string where
  \<open>note_meta_text =
     ''{"created_at":1500000000,"tags":["test"],"title":"Tags","updated_at":1500000001,"uuid":"N1"}''\<close>

definition note_meta_json :: json where
  "note_meta_json =
     JObject [(''created_at'', JNumber ''1500000000''), (''tags'', JArray [JString ''test'']),
              (''title'', JString ''Tags''), (''updated_at'', JNumber ''1500000001''),
              (''uuid'', JString ''N1'')]"

definition note_content_text :: string where
  \<open>note_content_text = ''{"title":"Tags","cells":[{"type":"text","data":"hello"}]}''\<close>

definition note_content_json :: json where
  "note_content_json =
     JObject [(''title'', JString ''Tags''),
              (''cells'',
               JArray [JObject [(''type'', JString ''text''), (''data'', JString ''hello'')]])]"

definition note_content_bare_text :: string where
  \<open>note_content_bare_text = ''{"cells":[{"type":"text","data":"hello"}]}''\<close>

definition note_content_bare_json :: json where
  "note_content_bare_json =
     JObject [(''cells'',
               JArray [JObject [(''type'', JString ''text''), (''data'', JString ''hello'')]])]"

definition missing_uuid_text :: string where
  \<open>missing_uuid_text = ''{"name":"Quiver Test"}''\<close>

definition missing_uuid_json :: json where
  "missing_uuid_json = JObject [(''name'', JString ''Quiver Test'')]"

definition wrong_type_text :: string where
  \<open>wrong_type_text = ''{"name":5,"uuid":"FIXTURE"}''\<close>

definition wrong_type_json :: json where
  "wrong_type_json = JObject [(''name'', JNumber ''5''), (''uuid'', JString ''FIXTURE'')]"

definition demo_scan :: scanner where
  "demo_scan r =
     (if r = lib_meta_text then Inr lib_meta_json
      else if r = nb_meta_text then Inr nb_meta_json
      else if r = note_meta_text then Inr note_meta_json
      else if r = note_content_text then Inr note_content_json
      else if r = note_content_bare_text then Inr note_content_bare_json
      else if r = missing_uuid_text then Inr missing_uuid_json
      else if r = wrong_type_text then Inr wrong_type_json
      else if r = ''{'' then Inl ErrUnexpectedEOF
      else if r = [] then Inl EOF
      else Inl SyntaxError)"

definition demo_note_dir :: fsnode where
  "demo_note_dir =
     Dir True [(''content.json'', File True note_content_text),
               (''meta.json'', File True note_meta_text)]"

definition demo_note_res_dir :: fsnode where
  "demo_note_res_dir =
     Dir True [(''content.json'', File True note_content_text),
               (''meta.json'', File True note_meta_text),
               (''resources'',
                Dir True [(''sub'', Dir True [(''x.txt'', File True ''xyz'')]),
                          (''pic.png'', File True ''PNG'')])]"

definition demo_fs :: fsnode where
  "demo_fs =
     Dir True
       [(''Quiver.qvlibrary'',
           Dir True
             [(''Quiver Test.qvnotebook'',
                 Dir True [(''A1.qvnote'', demo_note_dir), (''B2.qvnote'', demo_note_res_dir),
                           (''meta.json'', File True nb_meta_text)]),
              (''meta.json'', File True lib_meta_text)]),
        (''notes.txt'', File True ''hello'')]"

lemmas demo_defs = lib_meta_text_def lib_meta_json_def nb_meta_text_def nb_meta_json_def
  note_meta_text_def note_meta_json_def note_content_text_def note_content_json_def
  note_content_bare_text_def note_content_bare_json_def missing_uuid_text_def
  missing_uuid_json_def wrong_type_text_def wrong_type_json_def demo_scan_def demo_note_dir_def demo_note_res_dir_def demo_fs_def

lemmas eval_defs = os_Stat_def ioutil_ReadDir_def read_all_def base_def strings_HasSuffix_def
  IsLibrary_def IsNotebook_def IsNote_def
  ParseLibraryMetadata_def ParseNotebookMetadata_def ParseNoteMetadata_def ParseContent_def
  json_Decode_def decode_struct_def store_def decode_string_def decode_slice_def
  LibraryMetadata_field_def NotebookMetadata_field_def NoteMetadata_field_def
  NoteContent_field_def Cell_field_def decode_Cell_ptr_def fold_eq_def ascii_lower_def
  parse_int64_def TimeStamp_UnmarshalJSON_def zero_Cell_def zero_LibraryMetadata_def
  zero_NotebookMetadata_def zero_NoteMetadata_def zero_NoteContent_def zero_TimeStamp_def
  filepath_Join_def ReadLibraryMetadata_def ReadNotebookMetadata_def ReadNoteMetadata_def
  ReadNoteContent_def ReadNote_def ReadNotebook_def ReadLibrary_def

definition small_notebook_dir :: fsnode where
  "small_notebook_dir =
     Dir True [(''A1.qvnote'', demo_note_dir), (''meta.json'', File True nb_meta_text)]"

definition stray_fs :: fsnode where
  "stray_fs =
     Dir True
       [(''Quiver.qvlibrary'',
           Dir True
             [(''.DS_Store'', File True ''Bud1''),
              (''Quiver Test.qvnotebook'', small_notebook_dir),
              (''meta.json'', File True lib_meta_text)])]"

definition late_stray_fs :: fsnode where
  "late_stray_fs =
     Dir True
       [(''Quiver.qvlibrary'',
           Dir True
             [(''Quiver Test.qvnotebook'', small_notebook_dir),
              (''meta.json'', File True lib_meta_text),
              (''notes.txt'', File True ''hello'')])]"

definition nometa_fs :: fsnode where
  "nometa_fs =
     Dir True [(''Bare.qvlibrary'', Dir True [(''Quiver Test.qvnotebook'', small_notebook_dir)])]"

definition broken_note_fs :: fsnode where
  "broken_note_fs =
     Dir True
       [(''Quiver.qvlibrary'',
           Dir True
             [(''Quiver Test.qvnotebook'',
                 Dir True
                   [(''A1.qvnote'', Dir True [(''meta.json'', File True note_meta_text)]),
                    (''meta.json'', File True nb_meta_text)]),
              (''meta.json'', File True lib_meta_text)])]"

definition nometa_stray_fs :: fsnode where
  "nometa_stray_fs = Dir True [(''Bare.qvlibrary'', Dir True [(''.DS_Store'', File True ''Bud1'')])]"

definition lower_fs :: fsnode where
  "lower_fs =
     Dir True
       [(''Lower.qvnotebook'',
           Dir True [(''meta.json'', File True nb_meta_text), (''n1.qvnote'', demo_note_dir)])]"

definition mid_fs :: fsnode where
  "mid_fs =
     Dir True
       [(''Mid.qvnotebook'',
           Dir True [(''a.qvnote'', demo_note_dir), (''meta.json'', File True nb_meta_text),
                     (''z.qvnote'', demo_note_dir)])]"

definition notes_fs :: fsnode where
  "notes_fs =
     Dir True
       [(''A1.qvnote'', demo_note_dir),
        (''NoContent.qvnote'', Dir True [(''meta.json'', File True note_meta_text)]),
        (''NoMeta.qvnote'', Dir True [(''content.json'', File True note_content_text)]),
        (''BadMeta.qvnote'',
           Dir True [(''content.json'', File True note_content_text),
                     (''meta.json'', File True ''{'')]),
        (''ResFile.qvnote'',
           Dir True [(''content.json'', File True note_content_text),
                     (''meta.json'', File True note_meta_text),
                     (''resources'', File True ''x'')])]"

definition dangling_fs :: fsnode where
  "dangling_fs =
     Dir True
       [(''N.qvnote'',
           Dir True [(''content.json'', File True note_content_text),
                     (''meta.json'', File True note_meta_text),
                     (''resources'',
                        Dir True [(''a.png'', File True ''PNG''), (''gone.png'', DanglingLink)])])]"

definition demo_note_meta :: NoteMetadata where
  "demo_note_meta =
     \<lparr>nm_CreatedAt = 1500000000, nm_Tags = [''test''], nm_Title = ''Tags'',
      nm_UpdatedAt = 1500000001, nm_UUID = ''N1''\<rparr>"

definition demo_note_content :: NoteContent where
  "demo_note_content =
     \<lparr>nc_Cells = [Some \<lparr>cell_Type = ''text'', cell_Language = [], cell_DiagramType = [],
                           cell_Data = ''hello''\<rparr>]\<rparr>"

definition demo_note :: Note where
  "demo_note =
     \<lparr>note_Metadata = Some demo_note_meta, note_Content = Some demo_note_content,
      note_Resources = []\<rparr>"

definition demo_small_notebook :: Notebook where
  "demo_small_notebook =
     \<lparr>nbk_Metadata = Some \<lparr>nb_Name = ''Quiver Test'', nb_UUID = ''FIXTURE''\<rparr>,
      nbk_Notes = [Some demo_note]\<rparr>"

definition double_cap :: "nat \<Rightarrow> nat" where
  "double_cap c = (if c = 0 then 1 else 2 * c)"

definition demo_nb :: "string \<Rightarrow> Notebook" where
  "demo_nb u = \<lparr>nbk_Metadata = Some \<lparr>nb_Name = u, nb_UUID = u\<rparr>, nbk_Notes = []\<rparr>"

definition walk_lib :: Library where
  "walk_lib =
     \<lparr>lib_Metadata = Some \<lparr>lm_Children =
        [NotebookHierarchyInfo ''A''
           [NotebookHierarchyInfo ''B''
              [NotebookHierarchyInfo ''C''
                 [NotebookHierarchyInfo ''D1'' [NotebookHierarchyInfo ''E1'' []],
                  NotebookHierarchyInfo ''D2'' [NotebookHierarchyInfo ''E2'' []]]]],
         NotebookHierarchyInfo ''GHOST'' []]\<rparr>,
      lib_Notebooks = [Some (demo_nb ''A''), Some (demo_nb ''B''), Some (demo_nb ''C''),
                       Some (demo_nb ''D1''), Some (demo_nb ''E1'')]\<rparr>"

definition fail_on ::
  "string \<Rightarrow> Notebook option \<Rightarrow> Notebook option list \<Rightarrow> Notebook option list \<Rightarrow>
   error option \<times> Notebook option list" where
  "fail_on u n parents st =
     (if has_uuid u n then (Some (ErrorString ''stop''), st @ [n]) else (None, st @ [n]))"

definition fail_on_none ::
  "Notebook option \<Rightarrow> Notebook option list \<Rightarrow> Notebook option list \<Rightarrow>
   error option \<times> Notebook option list" where
  "fail_on_none n parents st = (None, st @ [n])"

definition demo_resource :: NoteResource where
  "demo_resource = \<lparr>res_Name = ''pic.png'', res_Rel = [], res_Data = ''PNG''\<rparr>"

definition demo_mime :: mime_table where
  "demo_mime = [(''.jpg'', ''image/jpeg''), (''.png'', ''image/png'')]"

definition demo_resource_json :: json where
  "demo_resource_json =
     JObject [(''Name'', JString ''pic.png''), (''Data'', JString ''data:image/png,UE5H'')]"

definition demo_resource_text :: string where
  \<open>demo_resource_text = ''{"Name":"pic.png","Data":"data:image/png,UE5H"}''\<close>

definition demo_render :: "json \<Rightarrow> string" where
  "demo_render v = (if v = demo_resource_json then demo_resource_text else ''null'')"

definition demo_valid :: scanner where
  "demo_valid data =
     (if data = demo_resource_text then Inr demo_resource_json else Inl SyntaxError)"

definition zero_NoteResource :: NoteResource where
  "zero_NoteResource = \<lparr>res_Name = [], res_Rel = [], res_Data = []\<rparr>"

lemmas fixture_defs = demo_defs small_notebook_dir_def stray_fs_def late_stray_fs_def
  nometa_fs_def lower_fs_def
  broken_note_fs_def nometa_stray_fs_def
  mid_fs_def notes_fs_def dangling_fs_def demo_note_meta_def demo_note_content_def demo_note_def
  demo_small_notebook_def

section \<open>The validators\<close>

text \<open>
  Claim C5. Each validator fails with the error of \<open>os.Stat\<close> when the path cannot be
  found (the error for which \<open>os.IsNotExist\<close> holds when the path does not exist), with
  its "should be a directory" error when the path is a file, and with its "should have
  the extension" error when the path is a directory whose base name lacks the suffix; it
  returns true and no error when the path is a directory with the suffix. \<open>ReadLibrary\<close>
  on a path that its validator refuses returns the validator's error.
\<close>

theorem validators_fail_by_kind:
  "(lookup fs p = Inl en \<longrightarrow>
      IsLibrary fs p = (False, Some (PathError ''stat'' p en)) \<and>
      IsNotebook fs p = (False, Some (PathError ''stat'' p en)) \<and>
      IsNote fs p = (False, Some (PathError ''stat'' p en)) \<and>
      ReadLibrary scan fs p lr = Done (Inl (PathError ''stat'' p en)) \<and>
      os_IsNotExist (PathError ''stat'' p en) = (en = ENOENT)) \<and>
   (lookup fs p = Inr (File r c) \<longrightarrow>
      IsLibrary fs p = (False, Some (ErrorString ''the Quiver Library should be a dictionary'')) \<and>
      IsNotebook fs p = (False, Some (ErrorString ''a Quiver Notebook should be a directory'')) \<and>
      IsNote fs p = (False, Some (ErrorString ''a Quiver Note should be a directory'')) \<and>
      ReadLibrary scan fs p lr =
        Done (Inl (ErrorString ''the Quiver Library should be a dictionary''))) \<and>
   (lookup fs p = Inr (Dir r es) \<longrightarrow>
      IsLibrary fs p =
        (if strings_HasSuffix (base p) ''.qvlibrary'' then (True, None)
         else (False, Some (ErrorString ''the Quiver Library should have .qvlibrary extension''))) \<and>
      IsNotebook fs p =
        (if strings_HasSuffix (base p) ''.qvnotebook'' then (True, None)
         else (False, Some (ErrorString ''a Quiver Notebook should have .qvnotebook extension''))) \<and>
      IsNote fs p =
        (if strings_HasSuffix (base p) ''.qvnote'' then (True, None)
         else (False, Some (ErrorString ''a Quiver Note should have .qvnote extension''))) \<and>
      (\<not> strings_HasSuffix (base p) ''.qvlibrary'' \<longrightarrow>
         ReadLibrary scan fs p lr =
           Done (Inl (ErrorString ''the Quiver Library should have .qvlibrary extension''))))"
  by (simp add: IsLibrary_def IsNotebook_def IsNote_def ReadLibrary_def os_Stat_def)

theorem validators_fail_by_kind_witness:
  "lookup demo_fs [''Missing.qvlibrary''] = Inl ENOENT \<and>
   IsLibrary demo_fs [''Missing.qvlibrary''] =
     (False, Some (PathError ''stat'' [''Missing.qvlibrary''] ENOENT)) \<and>
   ReadLibrary demo_scan demo_fs [''Missing.qvlibrary''] False =
     Done (Inl (PathError ''stat'' [''Missing.qvlibrary''] ENOENT)) \<and>
   IsNotebook demo_fs [''notes.txt''] =
     (False, Some (ErrorString ''a Quiver Notebook should be a directory'')) \<and>
   IsLibrary demo_fs [''Quiver.qvlibrary''] = (True, None) \<and>
   IsNote demo_fs [''Quiver.qvlibrary''] =
     (False, Some (ErrorString ''a Quiver Note should have .qvnote extension'')) \<and>
   ReadLibrary demo_scan demo_fs [''Quiver.qvlibrary'', ''Quiver Test.qvnotebook''] False =
     Done (Inl (ErrorString ''the Quiver Library should have .qvlibrary extension''))"
proof -
  have missing: "lookup demo_fs [''Missing.qvlibrary''] = Inl ENOENT"
    by (simp add: demo_fs_def)
  have isfile: "lookup demo_fs [''notes.txt''] = Inr (File True ''hello'')"
    by (simp add: demo_fs_def)
  obtain es where lib: "lookup demo_fs [''Quiver.qvlibrary''] = Inr (Dir True es)"
    by (simp add: demo_fs_def)
  obtain es' where nb:
    "lookup demo_fs [''Quiver.qvlibrary'', ''Quiver Test.qvnotebook''] = Inr (Dir True es')"
    by (simp add: demo_fs_def)
  have sfx: "strings_HasSuffix (base [''Quiver.qvlibrary'']) ''.qvlibrary''"
    "\<not> strings_HasSuffix (base [''Quiver.qvlibrary'']) ''.qvnote''"
    "\<not> strings_HasSuffix (base [''Quiver.qvlibrary'', ''Quiver Test.qvnotebook'']) ''.qvlibrary''"
    by (simp_all add: base_def strings_HasSuffix_def)
  show ?thesis
    using validators_fail_by_kind
        [where fs = demo_fs and p = "[''Missing.qvlibrary'']" and en = ENOENT
           and scan = demo_scan and lr = False]
      validators_fail_by_kind
        [where fs = demo_fs and p = "[''notes.txt'']" and scan = demo_scan and lr = False
           and r = True and c = "''hello''"]
      validators_fail_by_kind
        [where fs = demo_fs and p = "[''Quiver.qvlibrary'']" and scan = demo_scan
           and lr = False and r = True and es = es]
      validators_fail_by_kind
        [where fs = demo_fs and p = "[''Quiver.qvlibrary'', ''Quiver Test.qvnotebook'']"
           and scan = demo_scan and lr = False and r = True and es = es']
      missing isfile lib nb sfx
    by simp
qed

section \<open>The entity parsers\<close>

lemma decodes_string: "decodes (decode_string v old) (string_or_null v)"
  by (cases v) (simp_all add: decodes_def decode_string_def)

lemma decodes_timestamp: "decodes (TimeStamp_UnmarshalJSON v) (timestamp_ok v)"
  by (cases v) (auto simp: decodes_def TimeStamp_UnmarshalJSON_def split: option.splits)

lemma decodes_list:
  "(\<And>j. j \<in> set js \<Longrightarrow> decodes (elem j) (ok j)) \<Longrightarrow> decodes (decode_list elem js) (list_all ok js)"
proof (induction js)
  case Nil
  then show ?case by (simp add: decodes_def)
next
  case (Cons j js)
  from Cons.prems have "decodes (elem j) (ok j)" by simp
  moreover from Cons have "decodes (decode_list elem js) (list_all ok js)" by simp
  ultimately show ?case
    by (auto simp: decodes_def split: if_splits sum.splits)
qed

lemma decodes_slice:
  "(\<And>j. decodes (elem j) (ok j)) \<Longrightarrow> decodes (decode_slice elem v) (slice_ok ok v)"
  using decodes_list [of _ elem ok]
  by (cases v) (simp_all add: decode_slice_def, simp_all add: decodes_def)

lemma decodes_fields:
  assumes "\<And>k v a. case fld k v a of None \<Rightarrow> ok k v | Some r \<Rightarrow> decodes r (ok k v)"
  shows "decodes (decode_fields fld kvs a) (fields_ok ok kvs)"
proof (induction kvs arbitrary: a)
  case Nil
  then show ?case by (simp add: decodes_def)
next
  case (Cons kv kvs)
  obtain k v where kv: "kv = (k, v)" by (cases kv)
  show ?case
  proof (cases "fld k v a")
    case None
    with assms [of k v a] Cons.IH [of a] kv show ?thesis by (simp add: decodes_def)
  next
    case (Some r)
    with assms [of k v a] have d: "decodes r (ok k v)" by simp
    show ?thesis
    proof (cases r)
      case (Inl e)
      with d Some kv show ?thesis by (auto simp: decodes_def split: if_splits)
    next
      case (Inr a')
      with d Some kv Cons.IH [of a'] show ?thesis by (auto simp: decodes_def split: if_splits)
    qed
  qed
qed

lemma decodes_struct:
  assumes "\<And>k v a. case fld k v a of None \<Rightarrow> ok k v | Some r \<Rightarrow> decodes r (ok k v)"
  shows "decodes (decode_struct fld v a) (struct_ok ok v)"
  using decodes_fields [OF assms]
  by (cases v) (simp_all add: decode_struct_def, simp_all add: decodes_def)

lemma decodes_store: "decodes r ok \<Longrightarrow> decodes (case r of Inl e \<Rightarrow> Inl e | Inr x \<Rightarrow> Inr (upd x)) ok"
  by (auto simp: decodes_def split: if_splits)

lemma decode_fields_known:
  assumes "\<And>k v a. \<not> key k \<Longrightarrow> fld k v a = None"
  shows "decode_fields fld (known_fields key kvs) a = decode_fields fld kvs a"
proof (induction kvs arbitrary: a)
  case Nil
  then show ?case by (simp add: known_fields_def)
next
  case (Cons kv kvs)
  obtain k v where kv: "kv = (k, v)" by (cases kv)
  show ?case
  proof (cases "key k")
    case True
    with kv Cons.IH show ?thesis
      by (simp add: known_fields_def split: option.splits sum.splits)
  next
    case False
    with kv Cons.IH [of a] assms [of k v a] show ?thesis
      by (simp add: known_fields_def)
  qed
qed

lemma Cell_field_decodes:
  "case Cell_field k v c of None \<Rightarrow> Cell_ok k v | Some r \<Rightarrow> decodes r (Cell_ok k v)"
  by (simp add: Cell_field_def Cell_ok_def store_def decodes_store decodes_string)

lemma decode_Cell_ptr_decodes: "decodes (decode_Cell_ptr v) (struct_ok Cell_ok v)"
proof (cases v)
  case (JObject kvs)
  have "decodes (decode_fields Cell_field kvs zero_Cell) (fields_ok Cell_ok kvs)"
    by (rule decodes_fields) (rule Cell_field_decodes)
  with JObject show ?thesis
    by (auto simp: decode_Cell_ptr_def decodes_def split: if_splits)
qed (simp_all add: decode_Cell_ptr_def decodes_def)

lemma NoteContent_field_decodes:
  "case NoteContent_field k v n of None \<Rightarrow> NoteContent_ok k v
   | Some r \<Rightarrow> decodes r (NoteContent_ok k v)"
  by (simp add: NoteContent_field_def NoteContent_ok_def store_def decodes_store decodes_slice
      decode_Cell_ptr_decodes)

lemma NotebookMetadata_field_decodes:
  "case NotebookMetadata_field k v m of None \<Rightarrow> NotebookMetadata_ok k v
   | Some r \<Rightarrow> decodes r (NotebookMetadata_ok k v)"
  by (simp add: NotebookMetadata_field_def NotebookMetadata_ok_def store_def decodes_store
      decodes_string)

lemma fold_eq_distinct:
  "fold_eq k ''created_at'' \<Longrightarrow> \<not> fold_eq k ''updated_at''"
  "fold_eq k ''title'' \<Longrightarrow> \<not> fold_eq k ''created_at'' \<and> \<not> fold_eq k ''tags'' \<and> \<not> fold_eq k ''updated_at''"
  "fold_eq k ''uuid'' \<Longrightarrow> \<not> fold_eq k ''created_at'' \<and> \<not> fold_eq k ''tags'' \<and> \<not> fold_eq k ''updated_at'' \<and> \<not> fold_eq k ''title'' \<and> \<not> fold_eq k ''children''"
  "fold_eq k ''updated_at'' \<Longrightarrow> \<not> fold_eq k ''tags''"
  "fold_eq k ''created_at'' \<Longrightarrow> \<not> fold_eq k ''tags''"
  by (auto simp: fold_eq_def ascii_lower_def)

lemma NoteMetadata_field_decodes:
  "case NoteMetadata_field k v m of None \<Rightarrow> NoteMetadata_ok k v
   | Some r \<Rightarrow> decodes r (NoteMetadata_ok k v)"
  using fold_eq_distinct [of k]
  by (auto simp: NoteMetadata_field_def NoteMetadata_ok_def store_def decodes_store
      decodes_string decodes_timestamp decodes_slice)

lemma hierarchy_decodes:
  "decodes (decode_HierarchyInfo j n) (hierarchy_ok j)"
  "decodes (decode_HierarchyInfo_fields kvs n) (hierarchy_fields_ok kvs)"
  "decodes (decode_HierarchyInfo_list js) (hierarchy_list_ok js)"
proof (induction j n and kvs n and js
    rule: decode_HierarchyInfo_decode_HierarchyInfo_fields_decode_HierarchyInfo_list.induct)
  case (8 k v kvs n)
  show ?case
  proof (cases "fold_eq k ''uuid''")
    case True
    show ?thesis
    proof (cases "decode_string v (hi_UUID n)")
      case (Inl e)
      with True decodes_string [of v "hi_UUID n"] show ?thesis
        by (auto simp: decodes_def split: if_splits)
    next
      case (Inr s)
      with True decodes_string [of v "hi_UUID n"] "8.IH"(1) [OF True Inr] show ?thesis
        by (auto simp: decodes_def split: if_splits)
    qed
  next
    case nu: False
    show ?thesis
    proof (cases "fold_eq k ''children''")
      case True
      show ?thesis
      proof (cases v)
        case (JArray js)
        show ?thesis
        proof (cases "decode_HierarchyInfo_list js")
          case (Inl e)
          with nu True JArray "8.IH" show ?thesis
            by (auto simp: decodes_def split: if_splits)
        next
          case (Inr cs)
          with nu True JArray "8.IH" show ?thesis
            by (auto simp: decodes_def split: if_splits)
        qed
      next
        case JNull
        with nu True "8.IH" show ?thesis by simp
      qed (use nu True in \<open>simp_all add: decodes_def\<close>)
    next
      case False
      with nu "8.IH" show ?thesis by simp
    qed
  qed
next
  case (10 j js)
  then show ?case by (auto simp: decodes_def split: if_splits)
qed (simp_all add: decodes_def)

lemma LibraryMetadata_field_decodes:
  "case LibraryMetadata_field k v m of None \<Rightarrow> LibraryMetadata_ok k v
   | Some r \<Rightarrow> decodes r (LibraryMetadata_ok k v)"
  using hierarchy_decodes(3)
  by (cases v) (auto simp: LibraryMetadata_field_def LibraryMetadata_ok_def store_def
      intro!: decodes_store, simp_all add: decodes_def)

lemma Parse_decodes:
  assumes "scan r = Inr v"
  shows "decodes (ParseLibraryMetadata scan r) (struct_ok LibraryMetadata_ok v)"
    and "decodes (ParseNotebookMetadata scan r) (struct_ok NotebookMetadata_ok v)"
    and "decodes (ParseNoteMetadata scan r) (struct_ok NoteMetadata_ok v)"
    and "decodes (ParseContent scan r) (struct_ok NoteContent_ok v)"
proof -
  have "decodes (decode_struct LibraryMetadata_field v zero_LibraryMetadata)
      (struct_ok LibraryMetadata_ok v)"
    by (rule decodes_struct) (rule LibraryMetadata_field_decodes)
  with assms show "decodes (ParseLibraryMetadata scan r) (struct_ok LibraryMetadata_ok v)"
    by (auto simp: ParseLibraryMetadata_def json_Decode_def decodes_def split: if_splits)
  have "decodes (decode_struct NotebookMetadata_field v zero_NotebookMetadata)
      (struct_ok NotebookMetadata_ok v)"
    by (rule decodes_struct) (rule NotebookMetadata_field_decodes)
  with assms show "decodes (ParseNotebookMetadata scan r) (struct_ok NotebookMetadata_ok v)"
    by (auto simp: ParseNotebookMetadata_def json_Decode_def decodes_def split: if_splits)
  have "decodes (decode_struct NoteMetadata_field v zero_NoteMetadata)
      (struct_ok NoteMetadata_ok v)"
    by (rule decodes_struct) (rule NoteMetadata_field_decodes)
  with assms show "decodes (ParseNoteMetadata scan r) (struct_ok NoteMetadata_ok v)"
    by (auto simp: ParseNoteMetadata_def json_Decode_def decodes_def split: if_splits)
  have "decodes (decode_struct NoteContent_field v zero_NoteContent)
      (struct_ok NoteContent_ok v)"
    by (rule decodes_struct) (rule NoteContent_field_decodes)
  with assms show "decodes (ParseContent scan r) (struct_ok NoteContent_ok v)"
    by (auto simp: ParseContent_def json_Decode_def decodes_def split: if_splits)
qed

lemma unknown_key_skipped:
  "\<not> LibraryMetadata_key k \<Longrightarrow> LibraryMetadata_field k v l = None"
  "\<not> NotebookMetadata_key k \<Longrightarrow> NotebookMetadata_field k v m = None"
  "\<not> NoteMetadata_key k \<Longrightarrow> NoteMetadata_field k v n = None"
  "\<not> NoteContent_key k \<Longrightarrow> NoteContent_field k v c = None"
  by (simp_all add: LibraryMetadata_key_def LibraryMetadata_field_def NotebookMetadata_key_def
      NotebookMetadata_field_def NoteMetadata_key_def NoteMetadata_field_def NoteContent_key_def
      NoteContent_field_def)

lemma Parse_known:
  assumes "scan r = Inr (JObject kvs)"
  shows "ParseLibraryMetadata scan r =
      decode_fields LibraryMetadata_field (known_fields LibraryMetadata_key kvs) zero_LibraryMetadata"
    and "ParseNotebookMetadata scan r =
      decode_fields NotebookMetadata_field (known_fields NotebookMetadata_key kvs)
        zero_NotebookMetadata"
    and "ParseNoteMetadata scan r =
      decode_fields NoteMetadata_field (known_fields NoteMetadata_key kvs) zero_NoteMetadata"
    and "ParseContent scan r =
      decode_fields NoteContent_field (known_fields NoteContent_key kvs) zero_NoteContent"
  using assms
  by (simp_all add: ParseLibraryMetadata_def ParseNotebookMetadata_def ParseNoteMetadata_def
      ParseContent_def json_Decode_def decode_struct_def decode_fields_known unknown_key_skipped
      split: sum.splits)

text \<open>
  Claim C4, as the code has it. A document without the \<open>uuid\<close> field is accepted: the
  field keeps its zero value.
\<close>

theorem ParseNotebookMetadata_missing_field_accepted:
  "demo_scan missing_uuid_text = Inr (JObject [(''name'', JString ''Quiver Test'')]) \<and>
   ParseNotebookMetadata demo_scan missing_uuid_text =
     Inr \<lparr>nb_Name = ''Quiver Test'', nb_UUID = []\<rparr>"
  by (simp add: demo_defs eval_defs)

text \<open>
  Claim C4, amended. Each of the four parsers returns the scanner's error on a text that is
  not JSON. On a JSON value whose keys are ASCII and select each field at most once, it
  returns a record exactly when the value has the shape of the struct (it is \<open>null\<close> or an
  object whose keys that select a field hold the field's kind of value or \<open>null\<close>), and an
  \<open>UnmarshalTypeError\<close> otherwise. It looks only at the keys that select a field: two such
  objects with the same fields selected parse alike, and an object with none of them parses
  to the zero record, so no field is required.
\<close>

theorem parsers_decode_shape:
  "(scan r = Inl e \<longrightarrow>
      ParseLibraryMetadata scan r = Inl e \<and> ParseNotebookMetadata scan r = Inl e \<and>
      ParseNoteMetadata scan r = Inl e \<and> ParseContent scan r = Inl e) \<and>
   (scan r = Inr v \<and> plain_keys v \<longrightarrow>
      (if struct_ok LibraryMetadata_ok v then \<exists>m. ParseLibraryMetadata scan r = Inr m
       else ParseLibraryMetadata scan r = Inl UnmarshalTypeError) \<and>
      (if struct_ok NotebookMetadata_ok v then \<exists>m. ParseNotebookMetadata scan r = Inr m
       else ParseNotebookMetadata scan r = Inl UnmarshalTypeError) \<and>
      (if struct_ok NoteMetadata_ok v then \<exists>m. ParseNoteMetadata scan r = Inr m
       else ParseNoteMetadata scan r = Inl UnmarshalTypeError) \<and>
      (if struct_ok NoteContent_ok v then \<exists>n. ParseContent scan r = Inr n
       else ParseContent scan r = Inl UnmarshalTypeError)) \<and>
   (scan r = Inr (JObject kvs) \<and> plain_keys (JObject kvs) \<and>
    scan r' = Inr (JObject kvs') \<and> plain_keys (JObject kvs') \<longrightarrow>
      (known_fields LibraryMetadata_key kvs = known_fields LibraryMetadata_key kvs' \<longrightarrow>
         ParseLibraryMetadata scan r = ParseLibraryMetadata scan r') \<and>
      (known_fields NotebookMetadata_key kvs = known_fields NotebookMetadata_key kvs' \<longrightarrow>
         ParseNotebookMetadata scan r = ParseNotebookMetadata scan r') \<and>
      (known_fields NoteMetadata_key kvs = known_fields NoteMetadata_key kvs' \<longrightarrow>
         ParseNoteMetadata scan r = ParseNoteMetadata scan r') \<and>
      (known_fields NoteContent_key kvs = known_fields NoteContent_key kvs' \<longrightarrow>
         ParseContent scan r = ParseContent scan r')) \<and>
   (scan r = Inr (JObject kvs) \<and> plain_keys (JObject kvs) \<longrightarrow>
      (known_fields LibraryMetadata_key kvs = [] \<longrightarrow>
         ParseLibraryMetadata scan r = Inr zero_LibraryMetadata) \<and>
      (known_fields NotebookMetadata_key kvs = [] \<longrightarrow>
         ParseNotebookMetadata scan r = Inr zero_NotebookMetadata) \<and>
      (known_fields NoteMetadata_key kvs = [] \<longrightarrow>
         ParseNoteMetadata scan r = Inr zero_NoteMetadata) \<and>
      (known_fields NoteContent_key kvs = [] \<longrightarrow> ParseContent scan r = Inr zero_NoteContent))"
proof -
  have a: "scan r = Inl e \<longrightarrow>
      ParseLibraryMetadata scan r = Inl e \<and> ParseNotebookMetadata scan r = Inl e \<and>
      ParseNoteMetadata scan r = Inl e \<and> ParseContent scan r = Inl e"
    by (simp add: ParseLibraryMetadata_def ParseNotebookMetadata_def ParseNoteMetadata_def
        ParseContent_def json_Decode_def)
  have b: "scan r = Inr v \<and> plain_keys v \<longrightarrow>
      (if struct_ok LibraryMetadata_ok v then \<exists>m. ParseLibraryMetadata scan r = Inr m
       else ParseLibraryMetadata scan r = Inl UnmarshalTypeError) \<and>
      (if struct_ok NotebookMetadata_ok v then \<exists>m. ParseNotebookMetadata scan r = Inr m
       else ParseNotebookMetadata scan r = Inl UnmarshalTypeError) \<and>
      (if struct_ok NoteMetadata_ok v then \<exists>m. ParseNoteMetadata scan r = Inr m
       else ParseNoteMetadata scan r = Inl UnmarshalTypeError) \<and>
      (if struct_ok NoteContent_ok v then \<exists>n. ParseContent scan r = Inr n
       else ParseContent scan r = Inl UnmarshalTypeError)"
    using Parse_decodes [of scan r v] unfolding decodes_def by blast
  have c: "scan r = Inr (JObject kvs) \<and> plain_keys (JObject kvs) \<and>
      scan r' = Inr (JObject kvs') \<and> plain_keys (JObject kvs') \<longrightarrow>
      (known_fields LibraryMetadata_key kvs = known_fields LibraryMetadata_key kvs' \<longrightarrow>
         ParseLibraryMetadata scan r = ParseLibraryMetadata scan r') \<and>
      (known_fields NotebookMetadata_key kvs = known_fields NotebookMetadata_key kvs' \<longrightarrow>
         ParseNotebookMetadata scan r = ParseNotebookMetadata scan r') \<and>
      (known_fields NoteMetadata_key kvs = known_fields NoteMetadata_key kvs' \<longrightarrow>
         ParseNoteMetadata scan r = ParseNoteMetadata scan r') \<and>
      (known_fields NoteContent_key kvs = known_fields NoteContent_key kvs' \<longrightarrow>
         ParseContent scan r = ParseContent scan r')"
    using Parse_known [of scan r kvs] Parse_known [of scan r' kvs'] by simp
  have d: "scan r = Inr (JObject kvs) \<and> plain_keys (JObject kvs) \<longrightarrow>
      (known_fields LibraryMetadata_key kvs = [] \<longrightarrow>
         ParseLibraryMetadata scan r = Inr zero_LibraryMetadata) \<and>
      (known_fields NotebookMetadata_key kvs = [] \<longrightarrow>
         ParseNotebookMetadata scan r = Inr zero_NotebookMetadata) \<and>
      (known_fields NoteMetadata_key kvs = [] \<longrightarrow>
         ParseNoteMetadata scan r = Inr zero_NoteMetadata) \<and>
      (known_fields NoteContent_key kvs = [] \<longrightarrow> ParseContent scan r = Inr zero_NoteContent)"
    using Parse_known [of scan r kvs] by simp
  from a b c d show ?thesis by blast
qed

theorem parsers_decode_shape_witness:
  "ParseNoteMetadata demo_scan ''{'' = Inl ErrUnexpectedEOF \<and>
   ParseContent demo_scan ''Bud1'' = Inl SyntaxError \<and>
   plain_keys wrong_type_json \<and>
   ParseNotebookMetadata demo_scan wrong_type_text = Inl UnmarshalTypeError \<and>
   plain_keys note_content_json \<and> plain_keys note_content_bare_json \<and>
   (\<exists>n. ParseContent demo_scan note_content_text = Inr n) \<and>
   ParseContent demo_scan note_content_text = ParseContent demo_scan note_content_bare_text \<and>
   plain_keys missing_uuid_json \<and>
   ParseNoteMetadata demo_scan missing_uuid_text = Inr zero_NoteMetadata"
proof -
  have s1: "demo_scan ''{'' = Inl ErrUnexpectedEOF"
    and s0: "demo_scan ''Bud1'' = Inl SyntaxError"
    and s2: "demo_scan wrong_type_text = Inr wrong_type_json"
    and s3: "demo_scan note_content_text = Inr note_content_json"
    and s4: "demo_scan note_content_bare_text = Inr note_content_bare_json"
    and s5: "demo_scan missing_uuid_text = Inr missing_uuid_json"
    by (simp_all add: demo_defs)
  have plain: "plain_keys wrong_type_json" "plain_keys note_content_json"
    "plain_keys note_content_bare_json" "plain_keys missing_uuid_json"
    by (simp_all add: wrong_type_json_def note_content_json_def note_content_bare_json_def
        missing_uuid_json_def selected_once_def field_names_def ascii_key_def fold_eq_def
        ascii_lower_def)
  have shapes: "\<not> struct_ok NotebookMetadata_ok wrong_type_json"
    "struct_ok NoteContent_ok note_content_json"
    by (simp_all add: wrong_type_json_def note_content_json_def NotebookMetadata_ok_def
        NoteContent_ok_def Cell_ok_def fold_eq_def ascii_lower_def)
  have known: "known_fields NoteContent_key ([(''title'', JString ''Tags''),
        (''cells'', JArray [JObject [(''type'', JString ''text''), (''data'', JString ''hello'')]])]) =
      known_fields NoteContent_key ([(''cells'', JArray [JObject [(''type'', JString ''text''), (''data'', JString ''hello'')]])])"
    "known_fields NoteMetadata_key ([(''name'', JString ''Quiver Test'')]) = []"
    by (simp_all add: note_content_json_def note_content_bare_json_def missing_uuid_json_def
        known_fields_def NoteContent_key_def NoteMetadata_key_def fold_eq_def ascii_lower_def)
  from parsers_decode_shape [where scan = demo_scan and r = "''{''" and e = ErrUnexpectedEOF] s1
  have w1: "ParseNoteMetadata demo_scan ''{'' = Inl ErrUnexpectedEOF" by blast
  from parsers_decode_shape [where scan = demo_scan and r = "''Bud1''" and e = SyntaxError] s0
  have w0: "ParseContent demo_scan ''Bud1'' = Inl SyntaxError" by blast
  from parsers_decode_shape [where scan = demo_scan and r = wrong_type_text
      and v = wrong_type_json] s2 shapes(1) plain(1)
  have w2: "ParseNotebookMetadata demo_scan wrong_type_text = Inl UnmarshalTypeError" by simp
  from parsers_decode_shape [where scan = demo_scan and r = note_content_text
      and v = note_content_json] s3 shapes(2) plain(2)
  have w3: "\<exists>n. ParseContent demo_scan note_content_text = Inr n" by simp
  from parsers_decode_shape [where scan = demo_scan and r = note_content_text
      and r' = note_content_bare_text and kvs = "[(''title'', JString ''Tags''),
        (''cells'', JArray [JObject [(''type'', JString ''text''), (''data'', JString ''hello'')]])]"
      and kvs' = "[(''cells'', JArray [JObject [(''type'', JString ''text''), (''data'', JString ''hello'')]])]"] s3 s4 known(1) plain(2,3)
  have w4: "ParseContent demo_scan note_content_text =
      ParseContent demo_scan note_content_bare_text"
    by (simp add: note_content_json_def note_content_bare_json_def)
  from parsers_decode_shape [where scan = demo_scan and r = missing_uuid_text
      and kvs = "[(''name'', JString ''Quiver Test'')]"] s5 known(2) plain(4)
  have w5: "ParseNoteMetadata demo_scan missing_uuid_text = Inr zero_NoteMetadata"
    by (simp add: missing_uuid_json_def)
  from w1 w0 plain w2 w3 w4 w5 show ?thesis by blast
qed

section \<open>The loops of the tree loader\<close>

text \<open>
  What the loop of \<open>ReadLibrary\<close> returns, by induction on the entries still to be read.
\<close>

lemma ReadLibrary_loop_Inr:
  "ReadLibrary_loop scan fs p lr files md nbs = Done (Inr lib) \<Longrightarrow>
     \<exists>new. lib_Notebooks lib = nbs @ map Some new \<and>
       list_all2 (\<lambda>f nb. ReadNotebook scan fs (p @ [fi_Name f]) lr = Done (Inr nb))
         (filter (\<lambda>f. fi_Name f \<noteq> ''meta.json'') files) new"
proof (induction files arbitrary: md nbs)
  case Nil
  then show ?case by auto
next
  case (Cons f files)
  show ?case
  proof (cases "fi_Name f = ''meta.json''")
    case True
    with Cons.prems obtain m where
      "ReadLibrary_loop scan fs p lr files (Some m) nbs = Done (Inr lib)"
      by (auto split: sum.splits)
    from Cons.IH [OF this] True show ?thesis by simp
  next
    case False
    with Cons.prems obtain n where
      n: "ReadNotebook scan fs (p @ [fi_Name f]) lr = Done (Inr n)"
      and rest: "ReadLibrary_loop scan fs p lr files md (nbs @ [Some n]) = Done (Inr lib)"
      by (auto split: sum.splits exec.splits)
    from Cons.IH [OF rest] obtain new where
      "lib_Notebooks lib = (nbs @ [Some n]) @ map Some new"
      "list_all2 (\<lambda>f nb. ReadNotebook scan fs (p @ [fi_Name f]) lr = Done (Inr nb))
         (filter (\<lambda>f. fi_Name f \<noteq> ''meta.json'') files) new"
      by blast
    with n False show ?thesis
      by (intro exI [of _ "n # new"]) simp
  qed
qed

lemma ReadLibrary_loop_meta_Inr:
  "ReadLibrary_loop scan fs p lr files md nbs = Done (Inr lib) \<Longrightarrow>
   f \<in> set files \<Longrightarrow> fi_Name f = ''meta.json'' \<Longrightarrow>
     \<exists>m. ReadLibraryMetadata scan fs (p @ [fi_Name f]) = Inr m"
  by (induction files arbitrary: md nbs) (auto split: sum.splits exec.splits if_splits)

lemma ReadLibrary_loop_no_meta:
  "ReadLibrary_loop scan fs p lr files md nbs = Done (Inr lib) \<Longrightarrow>
   ''meta.json'' \<notin> fi_Name ` set files \<Longrightarrow> lib_Metadata lib = md"
  by (induction files arbitrary: md nbs) (auto split: sum.splits exec.splits if_splits)

lemma ReadLibrary_loop_Inl:
  "ReadLibrary_loop scan fs p lr files md nbs = Done (Inl e) \<Longrightarrow>
     \<exists>f\<in>set files.
       if fi_Name f = ''meta.json'' then ReadLibraryMetadata scan fs (p @ [fi_Name f]) = Inl e
       else ReadNotebook scan fs (p @ [fi_Name f]) lr = Done (Inl e)"
proof (induction files arbitrary: md nbs)
  case Nil
  then show ?case by simp
next
  case (Cons f files)
  show ?case
  proof (cases "fi_Name f = ''meta.json''")
    case True
    show ?thesis
    proof (cases "ReadLibraryMetadata scan fs (p @ [fi_Name f])")
      case (Inl e')
      with Cons.prems True show ?thesis by simp
    next
      case (Inr m)
      with Cons.prems True have "ReadLibrary_loop scan fs p lr files (Some m) nbs = Done (Inl e)"
        by simp
      from Cons.IH [OF this] show ?thesis by auto
    qed
  next
    case False
    show ?thesis
    proof (cases "ReadNotebook scan fs (p @ [fi_Name f]) lr")
      case (Panic q)
      with Cons.prems False show ?thesis by simp
    next
      case (Done r)
      show ?thesis
      proof (cases r)
        case (Inl e')
        with Cons.prems False Done show ?thesis by simp
      next
        case (Inr n)
        with Cons.prems False Done
        have "ReadLibrary_loop scan fs p lr files md (nbs @ [Some n]) = Done (Inl e)"
          by simp
        from Cons.IH [OF this] show ?thesis by auto
      qed
    qed
  qed
qed

text \<open>
  The error of the loop is the error of the first entry that fails to load, all entries
  before it having loaded; and conversely.
\<close>

lemma ReadLibrary_loop_first_Inl:
  "ReadLibrary_loop scan fs p lr files md nbs = Done (Inl e) \<Longrightarrow>
     \<exists>xs f ys. files = xs @ f # ys \<and>
       (\<forall>g\<in>set xs.
          if fi_Name g = ''meta.json''
          then \<exists>m. ReadLibraryMetadata scan fs (p @ [fi_Name g]) = Inr m
          else \<exists>nb. ReadNotebook scan fs (p @ [fi_Name g]) lr = Done (Inr nb)) \<and>
       (if fi_Name f = ''meta.json'' then ReadLibraryMetadata scan fs (p @ [fi_Name f]) = Inl e
        else ReadNotebook scan fs (p @ [fi_Name f]) lr = Done (Inl e))"
proof (induction files arbitrary: md nbs)
  case Nil
  then show ?case by simp
next
  case (Cons f files)
  let ?loads = "\<lambda>g. if fi_Name g = ''meta.json''
          then \<exists>m. ReadLibraryMetadata scan fs (p @ [fi_Name g]) = Inr m
          else \<exists>nb. ReadNotebook scan fs (p @ [fi_Name g]) lr = Done (Inr nb)"
  let ?fails = "\<lambda>f. if fi_Name f = ''meta.json''
        then ReadLibraryMetadata scan fs (p @ [fi_Name f]) = Inl e
        else ReadNotebook scan fs (p @ [fi_Name f]) lr = Done (Inl e)"
  have now: ?case if "?fails f"
  proof -
    have "f # files = [] @ f # files \<and> (\<forall>g\<in>set []. ?loads g) \<and> ?fails f"
      using that by simp
    then show ?thesis by blast
  qed
  have later: ?case
    if l: "?loads f" and r: "ReadLibrary_loop scan fs p lr files md' nbs' = Done (Inl e)"
    for md' nbs'
  proof -
    from Cons.IH [OF r] obtain xs f' ys where
      d: "files = xs @ f' # ys" "\<forall>g\<in>set xs. ?loads g" "?fails f'"
      by blast
    from d l have "f # files = (f # xs) @ f' # ys \<and> (\<forall>g\<in>set (f # xs). ?loads g) \<and> ?fails f'"
      by simp
    then show ?thesis by blast
  qed
  show ?case
  proof (cases "fi_Name f = ''meta.json''")
    case True
    show ?thesis
    proof (cases "ReadLibraryMetadata scan fs (p @ [fi_Name f])")
      case (Inl e')
      with Cons.prems True show ?thesis by (intro now) simp
    next
      case (Inr m)
      with Cons.prems True have "ReadLibrary_loop scan fs p lr files (Some m) nbs = Done (Inl e)"
        by simp
      with Inr True show ?thesis by (intro later) simp_all
    qed
  next
    case False
    show ?thesis
    proof (cases "ReadNotebook scan fs (p @ [fi_Name f]) lr")
      case (Panic q)
      with Cons.prems False show ?thesis by simp
    next
      case (Done r)
      show ?thesis
      proof (cases r)
        case (Inl e')
        with Cons.prems False Done show ?thesis by (intro now) simp
      next
        case (Inr n)
        with Cons.prems False Done
        have "ReadLibrary_loop scan fs p lr files md (nbs @ [Some n]) = Done (Inl e)"
          by simp
        with Inr Done False show ?thesis by (intro later) simp_all
      qed
    qed
  qed
qed

lemma ball_ConsD: "\<forall>x\<in>set (a # as). P x \<Longrightarrow> P a \<and> (\<forall>x\<in>set as. P x)"
  by simp

lemma ReadLibrary_loop_fails_at:
  assumes "\<forall>g\<in>set xs.
          if fi_Name g = ''meta.json''
          then \<exists>m. ReadLibraryMetadata scan fs (p @ [fi_Name g]) = Inr m
          else \<exists>nb. ReadNotebook scan fs (p @ [fi_Name g]) lr = Done (Inr nb)"
    and "if fi_Name f = ''meta.json'' then ReadLibraryMetadata scan fs (p @ [fi_Name f]) = Inl e
        else ReadNotebook scan fs (p @ [fi_Name f]) lr = Done (Inl e)"
  shows "ReadLibrary_loop scan fs p lr (xs @ f # ys) md nbs = Done (Inl e)"
  using assms(1)
proof (induction xs arbitrary: md nbs)
  case Nil
  with assms(2) show ?case by (simp split: if_splits)
next
  case (Cons g xs)
  from ball_ConsD [OF Cons.prems] have
    hd: "if fi_Name g = ''meta.json''
          then \<exists>m. ReadLibraryMetadata scan fs (p @ [fi_Name g]) = Inr m
          else \<exists>nb. ReadNotebook scan fs (p @ [fi_Name g]) lr = Done (Inr nb)"
    and rest: "\<forall>g\<in>set xs.
          if fi_Name g = ''meta.json''
          then \<exists>m. ReadLibraryMetadata scan fs (p @ [fi_Name g]) = Inr m
          else \<exists>nb. ReadNotebook scan fs (p @ [fi_Name g]) lr = Done (Inr nb)"
    by blast+
  show ?case
  proof (cases "fi_Name g = ''meta.json''")
    case True
    with hd obtain m where "ReadLibraryMetadata scan fs (p @ [fi_Name g]) = Inr m"
      by auto
    with True Cons.IH [OF rest] show ?thesis by simp
  next
    case False
    with hd obtain nb where "ReadNotebook scan fs (p @ [fi_Name g]) lr = Done (Inr nb)"
      by auto
    with False Cons.IH [OF rest] show ?thesis by simp
  qed
qed

lemma list_all2_witness: "list_all2 P xs ys \<Longrightarrow> x \<in> set xs \<Longrightarrow> \<exists>y. P x y"
  by (induction rule: list_all2_induct) auto

lemma ReadLibrary_loop_all_ok:
  "list_all2 (\<lambda>f nb. ReadNotebook scan fs (p @ [fi_Name f]) lr = Done (Inr nb)) files new \<Longrightarrow>
   ''meta.json'' \<notin> fi_Name ` set files \<Longrightarrow>
   ReadLibrary_loop scan fs p lr files md nbs =
     Done (Inr \<lparr>lib_Metadata = md, lib_Notebooks = nbs @ map Some new\<rparr>)"
  by (induction files new arbitrary: nbs rule: list_all2_induct) auto

lemma ReadNotebook_loop_Inr:
  "ReadNotebook_loop scan fs p lr i files md ns = Done (Inr nb) \<Longrightarrow>
   g \<in> set files \<Longrightarrow> fi_Name g \<noteq> ''meta.json'' \<Longrightarrow>
     \<exists>n. ReadNote scan fs (p @ [fi_Name g]) lr = Inr n"
  by (induction files arbitrary: i md ns) (auto split: sum.splits exec.splits if_splits)

lemma ReadLibrary_unfold:
  "IsLibrary fs p = (True, None) \<Longrightarrow> ioutil_ReadDir fs p = Inr files \<Longrightarrow>
   ReadLibrary scan fs p lr = ReadLibrary_loop scan fs p lr files None []"
  by (simp add: ReadLibrary_def)

lemma ReadNotebook_Inr_notes:
  assumes "ReadNotebook scan fs q lr = Done (Inr nb)" and "ioutil_ReadDir fs q = Inr nfiles"
    and "g \<in> set nfiles" and "fi_Name g \<noteq> ''meta.json''"
  shows "\<exists>n. ReadNote scan fs (q @ [fi_Name g]) lr = Inr n"
  using assms ReadNotebook_loop_Inr [of scan fs q lr 0 nfiles None _ nb g]
  by (auto simp: ReadNotebook_def Let_def split: option.splits sum.splits)

lemma ReadNoteResources_missing:
  "lookup fs q = Inl en \<Longrightarrow> ReadNoteResources fs q rel = Inl (PathError ''stat'' q en)"
  by (simp add: os_Stat_def)

lemma small_notebook_loads:
  "ReadNotebook demo_scan nometa_fs [''Bare.qvlibrary'', ''Quiver Test.qvnotebook''] False =
     Done (Inr demo_small_notebook)"
  by (simp add: fixture_defs eval_defs)

section \<open>Loading a library\<close>

text \<open>
  Claim C3, as the code has it. The claim fails where it promises path context: the error of
  a validator is a fixed text, here for a stray file in the library directory.
\<close>

theorem ReadLibrary_error_without_path:
  "ReadLibrary demo_scan stray_fs [''Quiver.qvlibrary''] False =
     Done (Inl (ErrorString ''a Quiver Notebook should be a directory'')) \<and>
   error_path (ErrorString ''a Quiver Notebook should be a directory'') = None"
  by (simp add: fixture_defs eval_defs)

text \<open>
  Claim C3, amended. When \<open>ReadLibrary\<close> returns a library, every entry of the directory
  other than \<open>meta.json\<close> was loaded as a notebook, in the order of the entries, and the
  library holds exactly these notebooks. It returns an error exactly when some entry fails
  to load, and the error is the one that the loader of the first such entry returned, all
  entries before it having loaded. An entry whose loader returns an error, or a notebook
  one of whose notes fails to load, leaves no library: nothing is skipped. The error is
  returned as it is and no path is added to it: for an entry that is a file, or a directory
  without the \<open>.qvnotebook\<close> suffix, it is the fixed text of the validator, which names no
  path.
\<close>

theorem ReadLibrary_all_or_nothing:
  assumes "IsLibrary fs p = (True, None)" and "ioutil_ReadDir fs p = Inr files"
  shows
    "(\<forall>lib. ReadLibrary scan fs p lr = Done (Inr lib) \<longrightarrow>
        (\<exists>nbs. lib_Notebooks lib = map Some nbs \<and>
           list_all2 (\<lambda>f nb. ReadNotebook scan fs (p @ [fi_Name f]) lr = Done (Inr nb))
             (filter (\<lambda>f. fi_Name f \<noteq> ''meta.json'') files) nbs)) \<and>
     (\<forall>e. ReadLibrary scan fs p lr = Done (Inl e) \<longleftrightarrow>
        (\<exists>xs f ys. files = xs @ f # ys \<and>
           (\<forall>g\<in>set xs.
              if fi_Name g = ''meta.json''
              then \<exists>m. ReadLibraryMetadata scan fs (p @ [fi_Name g]) = Inr m
              else \<exists>nb. ReadNotebook scan fs (p @ [fi_Name g]) lr = Done (Inr nb)) \<and>
           (if fi_Name f = ''meta.json''
            then ReadLibraryMetadata scan fs (p @ [fi_Name f]) = Inl e
            else ReadNotebook scan fs (p @ [fi_Name f]) lr = Done (Inl e)))) \<and>
     (\<forall>f\<in>set files. \<forall>e.
        (if fi_Name f = ''meta.json'' then ReadLibraryMetadata scan fs (p @ [fi_Name f]) = Inl e
         else ReadNotebook scan fs (p @ [fi_Name f]) lr = Done (Inl e)) \<longrightarrow>
        (\<forall>lib. ReadLibrary scan fs p lr \<noteq> Done (Inr lib))) \<and>
     (\<forall>f\<in>set files. \<forall>nfiles. \<forall>g\<in>set nfiles. \<forall>e.
        fi_Name f \<noteq> ''meta.json'' \<and> ioutil_ReadDir fs (p @ [fi_Name f]) = Inr nfiles \<and>
        fi_Name g \<noteq> ''meta.json'' \<and> ReadNote scan fs (p @ [fi_Name f, fi_Name g]) lr = Inl e \<longrightarrow>
        (\<forall>lib. ReadLibrary scan fs p lr \<noteq> Done (Inr lib))) \<and>
     (\<forall>q r c. lookup fs q = Inr (File r c) \<longrightarrow>
        ReadNotebook scan fs q lr =
          Done (Inl (ErrorString ''a Quiver Notebook should be a directory'')) \<and>
        error_path (ErrorString ''a Quiver Notebook should be a directory'') = None) \<and>
     (\<forall>q r es. lookup fs q = Inr (Dir r es) \<and> \<not> strings_HasSuffix (base q) ''.qvnotebook'' \<longrightarrow>
        ReadNotebook scan fs q lr =
          Done (Inl (ErrorString ''a Quiver Notebook should have .qvnotebook extension'')) \<and>
        error_path (ErrorString ''a Quiver Notebook should have .qvnotebook extension'') = None)"
proof -
  note unf = ReadLibrary_unfold [OF assms, of scan lr]
  have ok: "\<exists>nb. ReadNotebook scan fs (p @ [fi_Name f]) lr = Done (Inr nb)"
    if "ReadLibrary scan fs p lr = Done (Inr lib)" "f \<in> set files" "fi_Name f \<noteq> ''meta.json''"
    for lib f
  proof -
    from that(1) obtain nbs where
      "list_all2 (\<lambda>f nb. ReadNotebook scan fs (p @ [fi_Name f]) lr = Done (Inr nb))
         (filter (\<lambda>f. fi_Name f \<noteq> ''meta.json'') files) nbs"
      using ReadLibrary_loop_Inr [of scan fs p lr files None "[]" lib] unf by auto
    moreover from that(2,3) have "f \<in> set (filter (\<lambda>f. fi_Name f \<noteq> ''meta.json'') files)"
      by simp
    ultimately show ?thesis
      by (rule list_all2_witness)
  qed
  have c1: "\<forall>lib. ReadLibrary scan fs p lr = Done (Inr lib) \<longrightarrow>
        (\<exists>nbs. lib_Notebooks lib = map Some nbs \<and>
           list_all2 (\<lambda>f nb. ReadNotebook scan fs (p @ [fi_Name f]) lr = Done (Inr nb))
             (filter (\<lambda>f. fi_Name f \<noteq> ''meta.json'') files) nbs)"
    using ReadLibrary_loop_Inr [of scan fs p lr files None "[]"] unf by auto
  have c2: "\<forall>e. ReadLibrary scan fs p lr = Done (Inl e) \<longleftrightarrow>
        (\<exists>xs f ys. files = xs @ f # ys \<and>
           (\<forall>g\<in>set xs.
              if fi_Name g = ''meta.json''
              then \<exists>m. ReadLibraryMetadata scan fs (p @ [fi_Name g]) = Inr m
              else \<exists>nb. ReadNotebook scan fs (p @ [fi_Name g]) lr = Done (Inr nb)) \<and>
           (if fi_Name f = ''meta.json''
            then ReadLibraryMetadata scan fs (p @ [fi_Name f]) = Inl e
            else ReadNotebook scan fs (p @ [fi_Name f]) lr = Done (Inl e)))"
  proof (intro allI iffI)
    fix e assume "ReadLibrary scan fs p lr = Done (Inl e)"
    with unf have "ReadLibrary_loop scan fs p lr files None [] = Done (Inl e)" by simp
    then show "\<exists>xs f ys. files = xs @ f # ys \<and>
           (\<forall>g\<in>set xs.
              if fi_Name g = ''meta.json''
              then \<exists>m. ReadLibraryMetadata scan fs (p @ [fi_Name g]) = Inr m
              else \<exists>nb. ReadNotebook scan fs (p @ [fi_Name g]) lr = Done (Inr nb)) \<and>
           (if fi_Name f = ''meta.json''
            then ReadLibraryMetadata scan fs (p @ [fi_Name f]) = Inl e
            else ReadNotebook scan fs (p @ [fi_Name f]) lr = Done (Inl e))"
      by (rule ReadLibrary_loop_first_Inl)
  next
    fix e assume "\<exists>xs f ys. files = xs @ f # ys \<and>
           (\<forall>g\<in>set xs.
              if fi_Name g = ''meta.json''
              then \<exists>m. ReadLibraryMetadata scan fs (p @ [fi_Name g]) = Inr m
              else \<exists>nb. ReadNotebook scan fs (p @ [fi_Name g]) lr = Done (Inr nb)) \<and>
           (if fi_Name f = ''meta.json''
            then ReadLibraryMetadata scan fs (p @ [fi_Name f]) = Inl e
            else ReadNotebook scan fs (p @ [fi_Name f]) lr = Done (Inl e))"
    then obtain xs f ys where d: "files = xs @ f # ys"
      and l: "\<forall>g\<in>set xs.
              if fi_Name g = ''meta.json''
              then \<exists>m. ReadLibraryMetadata scan fs (p @ [fi_Name g]) = Inr m
              else \<exists>nb. ReadNotebook scan fs (p @ [fi_Name g]) lr = Done (Inr nb)"
      and f: "if fi_Name f = ''meta.json''
            then ReadLibraryMetadata scan fs (p @ [fi_Name f]) = Inl e
            else ReadNotebook scan fs (p @ [fi_Name f]) lr = Done (Inl e)"
      by blast
    from ReadLibrary_loop_fails_at [OF l f, of ys None "[]"] d unf
    show "ReadLibrary scan fs p lr = Done (Inl e)" by simp
  qed
  have c3: "\<forall>f\<in>set files. \<forall>e.
        (if fi_Name f = ''meta.json'' then ReadLibraryMetadata scan fs (p @ [fi_Name f]) = Inl e
         else ReadNotebook scan fs (p @ [fi_Name f]) lr = Done (Inl e)) \<longrightarrow>
        (\<forall>lib. ReadLibrary scan fs p lr \<noteq> Done (Inr lib))"
  proof (intro ballI allI impI)
    fix f e lib
    assume f: "f \<in> set files"
      and fails: "if fi_Name f = ''meta.json''
        then ReadLibraryMetadata scan fs (p @ [fi_Name f]) = Inl e
        else ReadNotebook scan fs (p @ [fi_Name f]) lr = Done (Inl e)"
    show "ReadLibrary scan fs p lr \<noteq> Done (Inr lib)"
    proof
      assume r: "ReadLibrary scan fs p lr = Done (Inr lib)"
      show False
      proof (cases "fi_Name f = ''meta.json''")
        case True
        with ReadLibrary_loop_meta_Inr [of scan fs p lr files None "[]" lib f] r unf f fails
        show False by auto
      next
        case False
        with ok [OF r f] fails show False by auto
      qed
    qed
  qed
  have c4: "\<forall>f\<in>set files. \<forall>nfiles. \<forall>g\<in>set nfiles. \<forall>e.
        fi_Name f \<noteq> ''meta.json'' \<and> ioutil_ReadDir fs (p @ [fi_Name f]) = Inr nfiles \<and>
        fi_Name g \<noteq> ''meta.json'' \<and> ReadNote scan fs (p @ [fi_Name f, fi_Name g]) lr = Inl e \<longrightarrow>
        (\<forall>lib. ReadLibrary scan fs p lr \<noteq> Done (Inr lib))"
  proof (intro ballI allI impI notI)
    fix f nfiles g e lib
    assume f: "f \<in> set files" and g: "g \<in> set nfiles"
      and h: "fi_Name f \<noteq> ''meta.json'' \<and> ioutil_ReadDir fs (p @ [fi_Name f]) = Inr nfiles \<and>
        fi_Name g \<noteq> ''meta.json'' \<and> ReadNote scan fs (p @ [fi_Name f, fi_Name g]) lr = Inl e"
      and r: "ReadLibrary scan fs p lr = Done (Inr lib)"
    from ok [OF r f] h obtain nb where
      "ReadNotebook scan fs (p @ [fi_Name f]) lr = Done (Inr nb)" by auto
    from ReadNotebook_Inr_notes [OF this _ g] h show False by auto
  qed
  have c5: "\<forall>q r c. lookup fs q = Inr (File r c) \<longrightarrow>
        ReadNotebook scan fs q lr =
          Done (Inl (ErrorString ''a Quiver Notebook should be a directory'')) \<and>
        error_path (ErrorString ''a Quiver Notebook should be a directory'') = None"
    by (simp add: ReadNotebook_def IsNotebook_def os_Stat_def)
  have c6: "\<forall>q r es. lookup fs q = Inr (Dir r es) \<and> \<not> strings_HasSuffix (base q) ''.qvnotebook'' \<longrightarrow>
        ReadNotebook scan fs q lr =
          Done (Inl (ErrorString ''a Quiver Notebook should have .qvnotebook extension'')) \<and>
        error_path (ErrorString ''a Quiver Notebook should have .qvnotebook extension'') = None"
    by (simp add: ReadNotebook_def IsNotebook_def os_Stat_def)
  from c1 c2 c3 c4 c5 c6 show ?thesis by blast
qed

theorem ReadLibrary_all_or_nothing_witness:
  "IsLibrary demo_fs [''Quiver.qvlibrary''] = (True, None) \<and>
   ioutil_ReadDir demo_fs [''Quiver.qvlibrary''] =
     Inr [\<lparr>fi_Name = ''Quiver Test.qvnotebook'', fi_IsDir = True\<rparr>,
          \<lparr>fi_Name = ''meta.json'', fi_IsDir = False\<rparr>] \<and>
   (\<exists>lib nb. ReadLibrary demo_scan demo_fs [''Quiver.qvlibrary''] True = Done (Inr lib) \<and>
      lib_Notebooks lib = [Some nb] \<and>
      ReadNotebook demo_scan demo_fs [''Quiver.qvlibrary'', ''Quiver Test.qvnotebook''] True =
        Done (Inr nb)) \<and>
   IsLibrary late_stray_fs [''Quiver.qvlibrary''] = (True, None) \<and>
   ioutil_ReadDir late_stray_fs [''Quiver.qvlibrary''] =
     Inr [\<lparr>fi_Name = ''Quiver Test.qvnotebook'', fi_IsDir = True\<rparr>,
          \<lparr>fi_Name = ''meta.json'', fi_IsDir = False\<rparr>,
          \<lparr>fi_Name = ''notes.txt'', fi_IsDir = False\<rparr>] \<and>
   (\<exists>nb. ReadNotebook demo_scan late_stray_fs [''Quiver.qvlibrary'', ''Quiver Test.qvnotebook'']
      False = Done (Inr nb)) \<and>
   (\<exists>m. ReadLibraryMetadata demo_scan late_stray_fs [''Quiver.qvlibrary'', ''meta.json''] =
      Inr m) \<and>
   lookup late_stray_fs [''Quiver.qvlibrary'', ''notes.txt''] = Inr (File True ''hello'') \<and>
   ReadNotebook demo_scan late_stray_fs [''Quiver.qvlibrary'', ''notes.txt''] False =
     Done (Inl (ErrorString ''a Quiver Notebook should be a directory'')) \<and>
   ReadLibrary demo_scan late_stray_fs [''Quiver.qvlibrary''] False =
     Done (Inl (ErrorString ''a Quiver Notebook should be a directory'')) \<and>
   IsLibrary stray_fs [''Quiver.qvlibrary''] = (True, None) \<and>
   (\<forall>lib. ReadLibrary demo_scan stray_fs [''Quiver.qvlibrary''] False \<noteq> Done (Inr lib)) \<and>
   ReadNote demo_scan broken_note_fs
       [''Quiver.qvlibrary'', ''Quiver Test.qvnotebook'', ''A1.qvnote''] False =
     Inl (PathError ''open''
            [''Quiver.qvlibrary'', ''Quiver Test.qvnotebook'', ''A1.qvnote'', ''content.json'']
            ENOENT) \<and>
   (\<forall>lib. ReadLibrary demo_scan broken_note_fs [''Quiver.qvlibrary''] False \<noteq> Done (Inr lib))"
proof -
  let ?nbe = "\<lparr>fi_Name = ''Quiver Test.qvnotebook'', fi_IsDir = True\<rparr>"
  let ?me = "\<lparr>fi_Name = ''meta.json'', fi_IsDir = False\<rparr>"
  let ?te = "\<lparr>fi_Name = ''notes.txt'', fi_IsDir = False\<rparr>"
  let ?files = "[?nbe, ?me]"
  let ?lfiles = "[?nbe, ?me, ?te]"
  let ?sfiles = "[\<lparr>fi_Name = ''.DS_Store'', fi_IsDir = False\<rparr>, ?nbe, ?me]"
  let ?dir = "ErrorString ''a Quiver Notebook should be a directory''"
  have lib: "IsLibrary demo_fs [''Quiver.qvlibrary''] = (True, None)"
    by (simp add: demo_fs_def eval_defs)
  have dir: "ioutil_ReadDir demo_fs [''Quiver.qvlibrary''] = Inr ?files"
    by (simp add: demo_fs_def ioutil_ReadDir_def)
  obtain l where l: "ReadLibrary demo_scan demo_fs [''Quiver.qvlibrary''] True = Done (Inr l)"
    by (simp add: fixture_defs eval_defs)
  from ReadLibrary_all_or_nothing [OF lib dir, of demo_scan True] l
  obtain nbs where nbs: "lib_Notebooks l = map Some nbs"
    "list_all2
       (\<lambda>f nb. ReadNotebook demo_scan demo_fs ([''Quiver.qvlibrary''] @ [fi_Name f]) True =
          Done (Inr nb))
       (filter (\<lambda>f. fi_Name f \<noteq> ''meta.json'') ?files) nbs"
    by blast
  from nbs(2) obtain nb where "nbs = [nb]"
    "ReadNotebook demo_scan demo_fs [''Quiver.qvlibrary'', ''Quiver Test.qvnotebook''] True =
       Done (Inr nb)"
    by (auto simp: list_all2_Cons1)
  with nbs(1) l have good:
    "\<exists>lib nb. ReadLibrary demo_scan demo_fs [''Quiver.qvlibrary''] True = Done (Inr lib) \<and>
      lib_Notebooks lib = [Some nb] \<and>
      ReadNotebook demo_scan demo_fs [''Quiver.qvlibrary'', ''Quiver Test.qvnotebook''] True =
        Done (Inr nb)"
    by auto
  have llib: "IsLibrary late_stray_fs [''Quiver.qvlibrary''] = (True, None)"
    by (simp add: late_stray_fs_def eval_defs)
  have ldir: "ioutil_ReadDir late_stray_fs [''Quiver.qvlibrary''] = Inr ?lfiles"
    by (simp add: late_stray_fs_def small_notebook_dir_def ioutil_ReadDir_def)
  have lnb: "\<exists>nb. ReadNotebook demo_scan late_stray_fs
      [''Quiver.qvlibrary'', ''Quiver Test.qvnotebook''] False = Done (Inr nb)"
    by (simp add: fixture_defs eval_defs)
  have lmeta: "\<exists>m. ReadLibraryMetadata demo_scan late_stray_fs
      [''Quiver.qvlibrary'', ''meta.json''] = Inr m"
    by (simp add: fixture_defs eval_defs)
  have ltxt: "lookup late_stray_fs [''Quiver.qvlibrary'', ''notes.txt''] = Inr (File True ''hello'')"
    by (simp add: late_stray_fs_def)
  note inst = ReadLibrary_all_or_nothing [OF llib ldir, of demo_scan False]
  from inst have "\<forall>q r c. lookup late_stray_fs q = Inr (File r c) \<longrightarrow>
        ReadNotebook demo_scan late_stray_fs q False = Done (Inl ?dir) \<and>
        error_path ?dir = None"
    by blast
  from this [rule_format, OF ltxt]
  have lfail: "ReadNotebook demo_scan late_stray_fs [''Quiver.qvlibrary'', ''notes.txt''] False =
      Done (Inl ?dir)"
    by simp
  have split: "?lfiles = [?nbe, ?me] @ ?te # []" by simp
  have before: "\<forall>g\<in>set [?nbe, ?me].
      if fi_Name g = ''meta.json''
      then \<exists>m. ReadLibraryMetadata demo_scan late_stray_fs ([''Quiver.qvlibrary''] @ [fi_Name g]) =
        Inr m
      else \<exists>nb. ReadNotebook demo_scan late_stray_fs ([''Quiver.qvlibrary''] @ [fi_Name g]) False =
        Done (Inr nb)"
    using lnb lmeta by simp
  have at: "if fi_Name ?te = ''meta.json''
      then ReadLibraryMetadata demo_scan late_stray_fs ([''Quiver.qvlibrary''] @ [fi_Name ?te]) =
        Inl ?dir
      else ReadNotebook demo_scan late_stray_fs ([''Quiver.qvlibrary''] @ [fi_Name ?te]) False =
        Done (Inl ?dir)"
    using lfail by simp
  from inst have "ReadLibrary demo_scan late_stray_fs [''Quiver.qvlibrary''] False = Done (Inl ?dir) \<longleftrightarrow>
      (\<exists>xs f ys. ?lfiles = xs @ f # ys \<and>
         (\<forall>g\<in>set xs.
            if fi_Name g = ''meta.json''
            then \<exists>m. ReadLibraryMetadata demo_scan late_stray_fs
                ([''Quiver.qvlibrary''] @ [fi_Name g]) = Inr m
            else \<exists>nb. ReadNotebook demo_scan late_stray_fs
                ([''Quiver.qvlibrary''] @ [fi_Name g]) False = Done (Inr nb)) \<and>
         (if fi_Name f = ''meta.json''
          then ReadLibraryMetadata demo_scan late_stray_fs ([''Quiver.qvlibrary''] @ [fi_Name f]) =
            Inl ?dir
          else ReadNotebook demo_scan late_stray_fs ([''Quiver.qvlibrary''] @ [fi_Name f]) False =
            Done (Inl ?dir)))"
    by blast
  moreover from split before at have "\<exists>xs f ys. ?lfiles = xs @ f # ys \<and>
         (\<forall>g\<in>set xs.
            if fi_Name g = ''meta.json''
            then \<exists>m. ReadLibraryMetadata demo_scan late_stray_fs
                ([''Quiver.qvlibrary''] @ [fi_Name g]) = Inr m
            else \<exists>nb. ReadNotebook demo_scan late_stray_fs
                ([''Quiver.qvlibrary''] @ [fi_Name g]) False = Done (Inr nb)) \<and>
         (if fi_Name f = ''meta.json''
          then ReadLibraryMetadata demo_scan late_stray_fs ([''Quiver.qvlibrary''] @ [fi_Name f]) =
            Inl ?dir
          else ReadNotebook demo_scan late_stray_fs ([''Quiver.qvlibrary''] @ [fi_Name f]) False =
            Done (Inl ?dir))"
    by blast
  ultimately have lerr: "ReadLibrary demo_scan late_stray_fs [''Quiver.qvlibrary''] False =
      Done (Inl ?dir)"
    by blast
  have slib: "IsLibrary stray_fs [''Quiver.qvlibrary''] = (True, None)"
    by (simp add: stray_fs_def eval_defs)
  have sdir: "ioutil_ReadDir stray_fs [''Quiver.qvlibrary''] = Inr ?sfiles"
    by (simp add: stray_fs_def small_notebook_dir_def ioutil_ReadDir_def)
  have ds: "\<lparr>fi_Name = ''.DS_Store'', fi_IsDir = False\<rparr> \<in> set ?sfiles" by simp
  have dserr: "ReadNotebook demo_scan stray_fs
      ([''Quiver.qvlibrary''] @ [fi_Name \<lparr>fi_Name = ''.DS_Store'', fi_IsDir = False\<rparr>]) False =
      Done (Inl ?dir)"
    by (simp add: fixture_defs eval_defs)
  have "\<forall>f\<in>set ?sfiles. \<forall>e.
        (if fi_Name f = ''meta.json''
         then ReadLibraryMetadata demo_scan stray_fs ([''Quiver.qvlibrary''] @ [fi_Name f]) = Inl e
         else ReadNotebook demo_scan stray_fs ([''Quiver.qvlibrary''] @ [fi_Name f]) False =
           Done (Inl e)) \<longrightarrow>
        (\<forall>lib. ReadLibrary demo_scan stray_fs [''Quiver.qvlibrary''] False \<noteq> Done (Inr lib))"
    using ReadLibrary_all_or_nothing [OF slib sdir, of demo_scan False] by blast
  from this [rule_format, OF ds, of ?dir] dserr
  have skip: "\<forall>lib. ReadLibrary demo_scan stray_fs [''Quiver.qvlibrary''] False \<noteq> Done (Inr lib)"
    by simp
  have blib: "IsLibrary broken_note_fs [''Quiver.qvlibrary''] = (True, None)"
    by (simp add: broken_note_fs_def eval_defs)
  have bdir: "ioutil_ReadDir broken_note_fs [''Quiver.qvlibrary''] = Inr ?files"
    by (simp add: broken_note_fs_def ioutil_ReadDir_def)
  let ?nfiles = "[\<lparr>fi_Name = ''A1.qvnote'', fi_IsDir = True\<rparr>,
                  \<lparr>fi_Name = ''meta.json'', fi_IsDir = False\<rparr>]"
  have ndir: "ioutil_ReadDir broken_note_fs
      ([''Quiver.qvlibrary''] @ [fi_Name \<lparr>fi_Name = ''Quiver Test.qvnotebook'', fi_IsDir = True\<rparr>]) =
      Inr ?nfiles"
    by (simp add: broken_note_fs_def ioutil_ReadDir_def)
  have nerr: "ReadNote demo_scan broken_note_fs
      [''Quiver.qvlibrary'', ''Quiver Test.qvnotebook'', ''A1.qvnote''] False =
     Inl (PathError ''open''
            [''Quiver.qvlibrary'', ''Quiver Test.qvnotebook'', ''A1.qvnote'', ''content.json'']
            ENOENT)"
    by (simp add: fixture_defs eval_defs)
  have "\<forall>f\<in>set ?files. \<forall>nfiles. \<forall>g\<in>set nfiles. \<forall>e.
        fi_Name f \<noteq> ''meta.json'' \<and>
        ioutil_ReadDir broken_note_fs ([''Quiver.qvlibrary''] @ [fi_Name f]) = Inr nfiles \<and>
        fi_Name g \<noteq> ''meta.json'' \<and>
        ReadNote demo_scan broken_note_fs ([''Quiver.qvlibrary''] @ [fi_Name f, fi_Name g]) False =
          Inl e \<longrightarrow>
        (\<forall>lib. ReadLibrary demo_scan broken_note_fs [''Quiver.qvlibrary''] False \<noteq> Done (Inr lib))"
    using ReadLibrary_all_or_nothing [OF blib bdir, of demo_scan False] by blast
  from this [rule_format, of "\<lparr>fi_Name = ''Quiver Test.qvnotebook'', fi_IsDir = True\<rparr>"
      "\<lparr>fi_Name = ''A1.qvnote'', fi_IsDir = True\<rparr>" ?nfiles] ndir nerr
  have nested: "\<forall>lib. ReadLibrary demo_scan broken_note_fs [''Quiver.qvlibrary''] False \<noteq>
      Done (Inr lib)"
    by simp
  from lib dir good llib ldir lnb lmeta ltxt lfail lerr slib skip nerr nested show ?thesis
    by blast
qed

text \<open>
  Claim C10. A library directory without an entry \<open>meta.json\<close>: when its notebooks load,
  \<open>ReadLibrary\<close> returns the library with no metadata; any library it returns has no
  metadata; and an error it returns is the error of one of the notebooks, never one about
  the missing file.
\<close>

theorem ReadLibrary_without_meta:
  assumes "IsLibrary fs p = (True, None)" and "ioutil_ReadDir fs p = Inr files"
    and "''meta.json'' \<notin> fi_Name ` set files"
  shows
    "(\<forall>nbs. list_all2 (\<lambda>f nb. ReadNotebook scan fs (p @ [fi_Name f]) lr = Done (Inr nb)) files nbs \<longrightarrow>
        ReadLibrary scan fs p lr =
          Done (Inr \<lparr>lib_Metadata = None, lib_Notebooks = map Some nbs\<rparr>)) \<and>
     (\<forall>lib. ReadLibrary scan fs p lr = Done (Inr lib) \<longrightarrow> lib_Metadata lib = None) \<and>
     (\<forall>e. ReadLibrary scan fs p lr = Done (Inl e) \<longrightarrow>
        (\<exists>f\<in>set files. ReadNotebook scan fs (p @ [fi_Name f]) lr = Done (Inl e)))"
proof -
  note unf = ReadLibrary_unfold [OF assms(1,2), of scan lr]
  have a: "\<forall>nbs. list_all2 (\<lambda>f nb. ReadNotebook scan fs (p @ [fi_Name f]) lr = Done (Inr nb)) files nbs \<longrightarrow>
        ReadLibrary scan fs p lr =
          Done (Inr \<lparr>lib_Metadata = None, lib_Notebooks = map Some nbs\<rparr>)"
    using ReadLibrary_loop_all_ok [of scan fs p lr files _ None "[]"] assms(3) unf by simp
  have b: "\<forall>lib. ReadLibrary scan fs p lr = Done (Inr lib) \<longrightarrow> lib_Metadata lib = None"
    using ReadLibrary_loop_no_meta [of scan fs p lr files None "[]"] assms(3) unf by simp
  have c: "\<forall>e. ReadLibrary scan fs p lr = Done (Inl e) \<longrightarrow>
        (\<exists>f\<in>set files. ReadNotebook scan fs (p @ [fi_Name f]) lr = Done (Inl e))"
  proof (intro allI impI)
    fix e assume "ReadLibrary scan fs p lr = Done (Inl e)"
    with unf have "ReadLibrary_loop scan fs p lr files None [] = Done (Inl e)" by simp
    from ReadLibrary_loop_Inl [OF this] assms(3)
    show "\<exists>f\<in>set files. ReadNotebook scan fs (p @ [fi_Name f]) lr = Done (Inl e)"
      by (metis image_eqI)
  qed
  from a b c show ?thesis by blast
qed

theorem ReadLibrary_without_meta_witness:
  "IsLibrary nometa_fs [''Bare.qvlibrary''] = (True, None) \<and>
   ioutil_ReadDir nometa_fs [''Bare.qvlibrary''] =
     Inr [\<lparr>fi_Name = ''Quiver Test.qvnotebook'', fi_IsDir = True\<rparr>] \<and>
   ReadLibrary demo_scan nometa_fs [''Bare.qvlibrary''] False =
     Done (Inr \<lparr>lib_Metadata = None, lib_Notebooks = [Some demo_small_notebook]\<rparr>) \<and>
   ReadLibrary demo_scan nometa_stray_fs [''Bare.qvlibrary''] False =
     Done (Inl (ErrorString ''a Quiver Notebook should be a directory'')) \<and>
   (\<exists>f\<in>set [\<lparr>fi_Name = ''.DS_Store'', fi_IsDir = False\<rparr>].
      ReadNotebook demo_scan nometa_stray_fs ([''Bare.qvlibrary''] @ [fi_Name f]) False =
        Done (Inl (ErrorString ''a Quiver Notebook should be a directory'')))"
proof -
  have lib: "IsLibrary nometa_fs [''Bare.qvlibrary''] = (True, None)"
    by (simp add: nometa_fs_def eval_defs)
  have dir: "ioutil_ReadDir nometa_fs [''Bare.qvlibrary''] =
      Inr [\<lparr>fi_Name = ''Quiver Test.qvnotebook'', fi_IsDir = True\<rparr>]"
    by (simp add: nometa_fs_def small_notebook_dir_def ioutil_ReadDir_def)
  have nometa: "''meta.json'' \<notin>
      fi_Name ` set [\<lparr>fi_Name = ''Quiver Test.qvnotebook'', fi_IsDir = True\<rparr>]"
    by simp
  have all: "list_all2
      (\<lambda>f nb. ReadNotebook demo_scan nometa_fs ([''Bare.qvlibrary''] @ [fi_Name f]) False =
         Done (Inr nb))
      [\<lparr>fi_Name = ''Quiver Test.qvnotebook'', fi_IsDir = True\<rparr>] [demo_small_notebook]"
    using small_notebook_loads by simp
  from ReadLibrary_without_meta [OF lib dir nometa, of demo_scan False]
  have "list_all2
      (\<lambda>f nb. ReadNotebook demo_scan nometa_fs ([''Bare.qvlibrary''] @ [fi_Name f]) False =
         Done (Inr nb))
      [\<lparr>fi_Name = ''Quiver Test.qvnotebook'', fi_IsDir = True\<rparr>] [demo_small_notebook] \<longrightarrow>
    ReadLibrary demo_scan nometa_fs [''Bare.qvlibrary''] False =
      Done (Inr \<lparr>lib_Metadata = None, lib_Notebooks = map Some [demo_small_notebook]\<rparr>)"
    by blast
  with all lib dir have good:
    "ReadLibrary demo_scan nometa_fs [''Bare.qvlibrary''] False =
       Done (Inr \<lparr>lib_Metadata = None, lib_Notebooks = [Some demo_small_notebook]\<rparr>)"
    by simp
  have slib: "IsLibrary nometa_stray_fs [''Bare.qvlibrary''] = (True, None)"
    by (simp add: nometa_stray_fs_def eval_defs)
  have sdir: "ioutil_ReadDir nometa_stray_fs [''Bare.qvlibrary''] =
      Inr [\<lparr>fi_Name = ''.DS_Store'', fi_IsDir = False\<rparr>]"
    by (simp add: nometa_stray_fs_def ioutil_ReadDir_def)
  have snometa: "''meta.json'' \<notin> fi_Name ` set [\<lparr>fi_Name = ''.DS_Store'', fi_IsDir = False\<rparr>]"
    by simp
  have serr: "ReadLibrary demo_scan nometa_stray_fs [''Bare.qvlibrary''] False =
     Done (Inl (ErrorString ''a Quiver Notebook should be a directory''))"
    by (simp add: nometa_stray_fs_def eval_defs)
  with ReadLibrary_without_meta [OF slib sdir snometa, of demo_scan False]
  have bad: "\<exists>f\<in>set [\<lparr>fi_Name = ''.DS_Store'', fi_IsDir = False\<rparr>].
      ReadNotebook demo_scan nometa_stray_fs ([''Bare.qvlibrary''] @ [fi_Name f]) False =
        Done (Inl (ErrorString ''a Quiver Notebook should be a directory''))"
    by blast
  from lib dir good serr bad show ?thesis by blast
qed

section \<open>Loading a notebook\<close>

text \<open>
  The loop writes the note of entry \<open>i\<close> at \<open>notes[i]\<close>. When \<open>meta.json\<close> is the last
  entry the indices of the notes are \<open>0\<close> to \<open>N - 1\<close> and the notebook is returned with
  its \<open>N\<close> notes in the order of the entries. When an entry follows \<open>meta.json\<close> and all
  notes load, the last entry has index \<open>N\<close> and the write panics.
\<close>

lemma ReadNotebook_loop_notes:
  assumes "list_all2 (loads_note scan fs p lr) files ns"
    and "i + length files \<le> length slots"
  shows "ReadNotebook_loop scan fs p lr i (files @ rest) md slots =
         ReadNotebook_loop scan fs p lr (i + length files) rest md
           (take i slots @ map Some ns @ drop (i + length files) slots)"
  using assms
proof (induction files ns arbitrary: i slots rule: list_all2_induct)
  case Nil
  then show ?case by simp
next
  case (Cons f files n ns)
  from Cons.prems have i: "i < length slots" by simp
  from Cons.hyps(1) have f: "fi_Name f \<noteq> ''meta.json''"
    "ReadNote scan fs (p @ [fi_Name f]) lr = Inr n"
    by (simp_all add: loads_note_def)
  have "ReadNotebook_loop scan fs p lr i ((f # files) @ rest) md slots =
      ReadNotebook_loop scan fs p lr (Suc i) (files @ rest) md (slots[i := Some n])"
    using f i by simp
  also have "\<dots> = ReadNotebook_loop scan fs p lr (Suc i + length files) rest md
      (take (Suc i) (slots[i := Some n]) @ map Some ns @
       drop (Suc i + length files) (slots[i := Some n]))"
    using Cons.prems by (intro Cons.IH) simp
  also have "take (Suc i) (slots[i := Some n]) = take i slots @ [Some n]"
    using i by (simp add: take_Suc_conv_app_nth)
  also have "drop (Suc i + length files) (slots[i := Some n]) = drop (Suc i + length files) slots"
    by simp
  finally show ?case by simp
qed

lemma ReadNotebook_meta_last:
  assumes nb: "IsNotebook fs p = (True, None)"
    and dir: "ioutil_ReadDir fs p = Inr (files @ [meta])"
    and meta: "fi_Name meta = ''meta.json''" "ReadNotebookMetadata scan fs (p @ [''meta.json'']) = Inr m"
    and ns: "list_all2 (loads_note scan fs p lr) files ns"
  shows "ReadNotebook scan fs p lr =
         Done (Inr \<lparr>nbk_Metadata = Some m, nbk_Notes = map Some ns\<rparr>)"
proof -
  define slots where "slots = replicate (length files) (None :: Note option)"
  from ns have len: "length ns = length files" by (simp add: list_all2_lengthD)
  have num: "(if length (files @ [meta]) > 1 then length (files @ [meta]) - 1 else 0) = length files"
    by simp
  have "ReadNotebook_loop scan fs p lr 0 (files @ [meta]) None slots =
      ReadNotebook_loop scan fs p lr (0 + length files) [meta] None
        (take 0 slots @ map Some ns @ drop (0 + length files) slots)"
    using ns by (rule ReadNotebook_loop_notes) (simp add: slots_def)
  also have "take 0 slots @ map Some ns @ drop (0 + length files) slots = map Some ns"
    by (simp add: slots_def)
  also have "ReadNotebook_loop scan fs p lr (0 + length files) [meta] None (map Some ns) =
      Done (Inr \<lparr>nbk_Metadata = Some m, nbk_Notes = map Some ns\<rparr>)"
    using meta by simp
  finally have "ReadNotebook_loop scan fs p lr 0 (files @ [meta]) None slots =
      Done (Inr \<lparr>nbk_Metadata = Some m, nbk_Notes = map Some ns\<rparr>)" .
  moreover have "ReadNotebook scan fs p lr =
      ReadNotebook_loop scan fs p lr 0 (files @ [meta]) None slots"
    using nb dir unfolding ReadNotebook_def Let_def num slots_def by simp
  ultimately show ?thesis by simp
qed

lemma ReadNotebook_meta_not_last:
  assumes nb: "IsNotebook fs p = (True, None)"
    and dir: "ioutil_ReadDir fs p = Inr (before @ meta # after @ [final])"
    and meta: "fi_Name meta = ''meta.json''" "ReadNotebookMetadata scan fs (p @ [''meta.json'']) = Inr m"
    and ns: "list_all2 (loads_note scan fs p lr) before ns1"
      "list_all2 (loads_note scan fs p lr) after ns2" "loads_note scan fs p lr final n"
  shows "ReadNotebook scan fs p lr =
         Panic (IndexOutOfRange (length before + length after + 1)
                  (length before + length after + 1))"
proof -
  define N where "N = length before + length after + 1"
  define slots where "slots = replicate N (None :: Note option)"
  define slots1 where "slots1 = take 0 slots @ map Some ns1 @ drop (0 + length before) slots"
  define slots2 where "slots2 = take (Suc (length before)) slots1 @ map Some ns2 @
         drop (Suc (length before) + length after) slots1"
  from ns(1) have l1: "length ns1 = length before" by (simp add: list_all2_lengthD)
  from ns(2) have l2: "length ns2 = length after" by (simp add: list_all2_lengthD)
  have len0: "length slots = N" by (simp add: slots_def)
  have len1: "length slots1 = N" using l1 len0 by (simp add: slots1_def N_def)
  have len2: "length slots2 = N" using l2 len1 by (simp add: slots2_def N_def)
  have num: "(if length (before @ meta # after @ [final]) > 1
      then length (before @ meta # after @ [final]) - 1 else 0) = N"
    by (simp add: N_def)
  have "ReadNotebook_loop scan fs p lr 0 (before @ meta # after @ [final]) None slots =
      ReadNotebook_loop scan fs p lr (0 + length before) (meta # after @ [final]) None slots1"
    unfolding slots1_def using ns(1) by (rule ReadNotebook_loop_notes) (simp add: len0 N_def)
  also have "\<dots> =
      ReadNotebook_loop scan fs p lr (Suc (length before)) (after @ [final]) (Some m) slots1"
    using meta by simp
  also have "\<dots> =
      ReadNotebook_loop scan fs p lr (Suc (length before) + length after) [final] (Some m) slots2"
    unfolding slots2_def using ns(2) by (rule ReadNotebook_loop_notes) (simp add: len1 N_def)
  also have "\<dots> = Panic (IndexOutOfRange N N)"
    using ns(3) len2 by (simp add: loads_note_def N_def)
  finally have "ReadNotebook_loop scan fs p lr 0 (before @ meta # after @ [final]) None slots =
      Panic (IndexOutOfRange N N)" .
  moreover have "ReadNotebook scan fs p lr =
      ReadNotebook_loop scan fs p lr 0 (before @ meta # after @ [final]) None slots"
    using nb dir unfolding ReadNotebook_def Let_def num slots_def by (simp add: N_def)
  ultimately show ?thesis by (simp add: N_def)
qed

text \<open>
  Claim C2. A notebook directory whose entries are \<open>meta.json\<close> and one note,
  \<open>n1.qvnote\<close>, which sorts after it: the note is the entry of index 1 and the slice of
  notes has length 1, so the write panics and no notebook is returned.
\<close>

theorem ReadNotebook_meta_first_panics:
  "ReadNotebook demo_scan lower_fs [''Lower.qvnotebook''] False = Panic (IndexOutOfRange 1 1)"
  by (simp add: fixture_defs eval_defs)

text \<open>
  Claim C9. With \<open>meta.json\<close> between two notes, the slice has length 2 and the second
  note is written at index 2: the write is out of bounds.
\<close>

theorem ReadNotebook_meta_middle_out_of_bounds:
  "ioutil_ReadDir mid_fs [''Mid.qvnotebook''] =
     Inr [\<lparr>fi_Name = ''a.qvnote'', fi_IsDir = True\<rparr>, \<lparr>fi_Name = ''meta.json'', fi_IsDir = False\<rparr>,
          \<lparr>fi_Name = ''z.qvnote'', fi_IsDir = True\<rparr>] \<and>
   ReadNotebook demo_scan mid_fs [''Mid.qvnotebook''] False = Panic (IndexOutOfRange 2 2)"
  by (simp add: fixture_defs eval_defs)

section \<open>Loading a note\<close>

text \<open>
  In a note directory, a \<open>meta.json\<close> or \<open>content.json\<close> that is missing or does not
  parse makes \<open>ReadNote\<close> return that error and no note. With both read, the note is
  returned without resources when they are not asked for; when they are, a missing
  \<open>resources\<close> directory gives the note with no resources, an error of the walk for which
  \<open>os.IsNotExist\<close> does not hold is returned, and a successful walk gives the note with the
  resources found.
\<close>

lemma ReadNote_outcomes:
  assumes "IsNote fs p = (True, None)"
  shows
    "(\<forall>e. ReadNoteMetadata scan fs (p @ [''meta.json'']) = Inl e \<longrightarrow>
        ReadNote scan fs p lr = Inl e) \<and>
     (\<forall>en. lookup fs (p @ [''meta.json'']) = Inl en \<longrightarrow>
        ReadNote scan fs p lr = Inl (PathError ''open'' (p @ [''meta.json'']) en)) \<and>
     (\<forall>buf e. lookup fs (p @ [''meta.json'']) = Inr (File True buf) \<and>
        ParseNoteMetadata scan buf = Inl e \<longrightarrow> ReadNote scan fs p lr = Inl e) \<and>
     (\<forall>m. ReadNoteMetadata scan fs (p @ [''meta.json'']) = Inr m \<longrightarrow>
        (\<forall>e. ReadNoteContent scan fs (p @ [''content.json'']) = Inl e \<longrightarrow>
           ReadNote scan fs p lr = Inl e) \<and>
        (\<forall>en. lookup fs (p @ [''content.json'']) = Inl en \<longrightarrow>
           ReadNote scan fs p lr = Inl (PathError ''open'' (p @ [''content.json'']) en)) \<and>
        (\<forall>buf e. lookup fs (p @ [''content.json'']) = Inr (File True buf) \<and>
           ParseContent scan buf = Inl e \<longrightarrow> ReadNote scan fs p lr = Inl e) \<and>
        (\<forall>c. ReadNoteContent scan fs (p @ [''content.json'']) = Inr c \<longrightarrow>
           ReadNote scan fs p False =
             Inr \<lparr>note_Metadata = Some m, note_Content = Some c, note_Resources = []\<rparr> \<and>
           (lookup fs (p @ [''resources'']) = Inl ENOENT \<longrightarrow>
              ReadNote scan fs p True =
                Inr \<lparr>note_Metadata = Some m, note_Content = Some c, note_Resources = []\<rparr>) \<and>
           (\<forall>e. ReadNoteResources fs (p @ [''resources'']) [] = Inl e \<and> \<not> os_IsNotExist e \<longrightarrow>
              ReadNote scan fs p True = Inl e) \<and>
           (\<forall>res. ReadNoteResources fs (p @ [''resources'']) [] = Inr res \<longrightarrow>
              ReadNote scan fs p True =
                Inr \<lparr>note_Metadata = Some m, note_Content = Some c, note_Resources = res\<rparr>)))"
  using assms
  by (simp add: ReadNote_def ReadNoteMetadata_def ReadNoteContent_def read_all_def
      ReadNoteResources_missing del: ReadNoteResources.simps)

lemma ReadNote_outcomes_fixture:
  "IsNote notes_fs [''A1.qvnote''] = (True, None) \<and>
   lookup notes_fs [''A1.qvnote'', ''resources''] = Inl ENOENT \<and>
   ReadNote demo_scan notes_fs [''A1.qvnote''] True = Inr demo_note \<and>
   ReadNote demo_scan notes_fs [''NoMeta.qvnote''] True =
     Inl (PathError ''open'' [''NoMeta.qvnote'', ''meta.json''] ENOENT) \<and>
   ReadNote demo_scan notes_fs [''NoContent.qvnote''] True =
     Inl (PathError ''open'' [''NoContent.qvnote'', ''content.json''] ENOENT) \<and>
   ReadNote demo_scan notes_fs [''BadMeta.qvnote''] True = Inl ErrUnexpectedEOF \<and>
   ReadNote demo_scan notes_fs [''ResFile.qvnote''] True =
     Inl (ErrorString ''quiver Note Resources should be held in a directory'')"
proof -
  have n1: "IsNote notes_fs [''A1.qvnote''] = (True, None)"
    and n2: "IsNote notes_fs [''NoMeta.qvnote''] = (True, None)"
    and n3: "IsNote notes_fs [''NoContent.qvnote''] = (True, None)"
    and n4: "IsNote notes_fs [''BadMeta.qvnote''] = (True, None)"
    and n5: "IsNote notes_fs [''ResFile.qvnote''] = (True, None)"
    by (simp_all add: notes_fs_def demo_note_dir_def eval_defs)
  have m: "ReadNoteMetadata demo_scan notes_fs ([''A1.qvnote''] @ [''meta.json'']) =
      Inr demo_note_meta"
    and c: "ReadNoteContent demo_scan notes_fs ([''A1.qvnote''] @ [''content.json'']) =
      Inr demo_note_content"
    and r: "lookup notes_fs ([''A1.qvnote''] @ [''resources'']) = Inl ENOENT"
    by (simp_all add: fixture_defs eval_defs)
  from ReadNote_outcomes [OF n1, of demo_scan True] m c r
  have a1: "ReadNote demo_scan notes_fs [''A1.qvnote''] True = Inr demo_note"
    by (simp add: demo_note_def)
  have "lookup notes_fs ([''NoMeta.qvnote''] @ [''meta.json'']) = Inl ENOENT"
    by (simp add: fixture_defs)
  with ReadNote_outcomes [OF n2, of demo_scan True]
  have a2: "ReadNote demo_scan notes_fs [''NoMeta.qvnote''] True =
     Inl (PathError ''open'' [''NoMeta.qvnote'', ''meta.json''] ENOENT)"
    by simp
  have "ReadNoteMetadata demo_scan notes_fs ([''NoContent.qvnote''] @ [''meta.json'']) =
      Inr demo_note_meta"
    "lookup notes_fs ([''NoContent.qvnote''] @ [''content.json'']) = Inl ENOENT"
    by (simp_all add: fixture_defs eval_defs)
  with ReadNote_outcomes [OF n3, of demo_scan True]
  have a3: "ReadNote demo_scan notes_fs [''NoContent.qvnote''] True =
     Inl (PathError ''open'' [''NoContent.qvnote'', ''content.json''] ENOENT)"
    by simp
  have "lookup notes_fs ([''BadMeta.qvnote''] @ [''meta.json'']) = Inr (File True ''{'')"
    "ParseNoteMetadata demo_scan ''{'' = Inl ErrUnexpectedEOF"
    by (simp_all add: fixture_defs eval_defs)
  with ReadNote_outcomes [OF n4, of demo_scan True]
  have a4: "ReadNote demo_scan notes_fs [''BadMeta.qvnote''] True = Inl ErrUnexpectedEOF"
    by blast
  have "ReadNoteMetadata demo_scan notes_fs ([''ResFile.qvnote''] @ [''meta.json'']) =
      Inr demo_note_meta"
    "ReadNoteContent demo_scan notes_fs ([''ResFile.qvnote''] @ [''content.json'']) =
      Inr demo_note_content"
    "ReadNoteResources notes_fs ([''ResFile.qvnote''] @ [''resources'']) [] =
      Inl (ErrorString ''quiver Note Resources should be held in a directory'')"
    "\<not> os_IsNotExist (ErrorString ''quiver Note Resources should be held in a directory'')"
    by (simp_all add: fixture_defs eval_defs)
  with ReadNote_outcomes [OF n5, of demo_scan True]
  have a5: "ReadNote demo_scan notes_fs [''ResFile.qvnote''] True =
     Inl (ErrorString ''quiver Note Resources should be held in a directory'')"
    by blast
  from n1 r a1 a2 a3 a4 a5 show ?thesis by simp
qed

text \<open>
  The test \<open>os.IsNotExist\<close> in \<open>ReadNote\<close> is applied to whatever error the walk returns,
  not only to the one for a missing \<open>resources\<close> directory: every error of the walk that
  says "does not exist" is dropped, and the note is returned with no resources.
\<close>

lemma ReadNote_ignores_not_exist:
  assumes "IsNote fs p = (True, None)"
    and "ReadNoteMetadata scan fs (p @ [''meta.json'']) = Inr m"
    and "ReadNoteContent scan fs (p @ [''content.json'']) = Inr c"
    and "ReadNoteResources fs (p @ [''resources'']) [] = Inl e" and "os_IsNotExist e"
  shows "ReadNote scan fs p True =
         Inr \<lparr>note_Metadata = Some m, note_Content = Some c, note_Resources = []\<rparr>"
  using assms by (simp add: ReadNote_def del: ReadNoteResources.simps)

text \<open>
  Claim C6. The claim holds for the two required files and for a missing \<open>resources\<close>
  directory, and fails where it says that any other error of the walk is returned. Here the
  \<open>resources\<close> directory exists and holds the file \<open>a.png\<close> and the link \<open>gone.png\<close>, whose
  target does not exist. The walk reads \<open>a.png\<close>, then \<open>os.Stat\<close> fails on \<open>gone.png\<close> and
  the walk returns that error; \<open>ReadNote\<close> drops it and returns the note with no resource,
  although the comment at the test says that a directory that does not exist is ignored.
\<close>

theorem ReadNote_drops_error_inside_resources:
  "os_Stat dangling_fs [''N.qvnote'', ''resources''] =
     Inr \<lparr>fi_Name = ''resources'', fi_IsDir = True\<rparr> \<and>
   ioutil_ReadDir dangling_fs [''N.qvnote'', ''resources''] =
     Inr [\<lparr>fi_Name = ''a.png'', fi_IsDir = False\<rparr>, \<lparr>fi_Name = ''gone.png'', fi_IsDir = False\<rparr>] \<and>
   ReadNoteResources dangling_fs [''N.qvnote'', ''resources''] [] =
     Inl (PathError ''stat'' [''N.qvnote'', ''resources'', ''gone.png''] ENOENT) \<and>
   ReadNote demo_scan dangling_fs [''N.qvnote''] True =
     Inr \<lparr>note_Metadata = Some demo_note_meta, note_Content = Some demo_note_content,
          note_Resources = []\<rparr>"
  by (simp add: fixture_defs eval_defs)

section \<open>The walk over the declared hierarchy\<close>

lemma run_visits_append:
  "run_visits f (xs @ ys) st =
     (case run_visits f xs st of
        (Some err, st') \<Rightarrow> (Some err, st')
      | (None, st') \<Rightarrow> run_visits f ys st')"
  by (induction xs arbitrary: st) (auto split: prod.splits option.splits)

lemma frame_refl: "frame s h h"
  by (simp add: frame_def)

lemma frame_trans: "frame s h h1 \<Longrightarrow> frame s h1 h2 \<Longrightarrow> sl_arr s < length h \<Longrightarrow> frame s h h2"
  unfolding frame_def by (metis (no_types, lifting) le_trans less_le_trans)

lemma frame_wf: "frame s h h' \<Longrightarrow> wf_slice h s \<Longrightarrow> wf_slice h' s"
  by (auto simp: frame_def wf_slice_def)

lemma frame_elems: "frame s h h' \<Longrightarrow> wf_slice h s \<Longrightarrow> slice_elems h' s = slice_elems h s"
  by (auto simp: frame_def wf_slice_def slice_elems_def backing_def)

lemma go_append_wf:
  assumes "c < grow c" "wf_slice h s" "sl_cap s = c"
  shows "wf_slice (fst (go_append grow h s x)) (snd (go_append grow h s x))"
  using assms
  by (auto simp: go_append_def wf_slice_def backing_def slice_elems_def nth_append)

lemma go_append_elems:
  assumes "wf_slice h s"
  shows "slice_elems (fst (go_append grow h s x)) (snd (go_append grow h s x)) =
         slice_elems h s @ [x]"
  using assms
  by (auto simp: go_append_def wf_slice_def backing_def slice_elems_def nth_append
      take_Suc_conv_app_nth)

lemma go_append_frame:
  assumes wf: "wf_slice h s"
    and fr: "frame (snd (go_append grow h s x)) (fst (go_append grow h s x)) h'"
  shows "frame s h h'"
proof (cases "sl_len s < sl_cap s")
  case True
  let ?a = "sl_arr s" and ?l = "sl_len s"
  let ?h1 = "h[?a := (h ! ?a)[?l := x]]"
  from True wf have fr': "frame (s\<lparr>sl_len := Suc ?l\<rparr>) ?h1 h'"
    using fr by (simp add: go_append_def backing_def wf_slice_def)
  have len: "length h \<le> length h'"
    using fr' by (simp add: frame_def)
  have arrs: "length (h' ! b) = length (h ! b) \<and> (b \<noteq> ?a \<longrightarrow> h' ! b = h ! b)"
    if "b < length h" for b
    using fr' that by (cases "b = ?a") (auto simp: frame_def)
  have "take (Suc ?l) (h' ! ?a) = take (Suc ?l) ((h ! ?a)[?l := x])"
    using fr' wf by (simp add: frame_def wf_slice_def)
  then have "take ?l (take (Suc ?l) (h' ! ?a)) = take ?l (take (Suc ?l) ((h ! ?a)[?l := x]))"
    by simp
  then have "take ?l (h' ! ?a) = take ?l (h ! ?a)"
    by (simp add: min_def)
  with len arrs show ?thesis
    by (simp add: frame_def)
next
  case False
  let ?new = "slice_elems h s @ x # replicate (grow (sl_cap s) - Suc (sl_len s)) []"
  from False have fr': "frame \<lparr>sl_arr = length h, sl_len = Suc (sl_len s), sl_cap = grow (sl_cap s)\<rparr>
      (h @ [?new]) h'"
    using fr by (simp add: go_append_def)
  have len: "length h \<le> length h'"
    using fr' by (simp add: frame_def)
  have arrs: "h' ! b = h ! b" if "b < length h" for b
  proof -
    from that have "b < length (h @ [?new])" "b \<noteq> length h" by simp_all
    with fr' have "h' ! b = (h @ [?new]) ! b"
      unfolding frame_def by (metis slice.select_convs(1))
    with that show ?thesis by (simp add: nth_append)
  qed
  from wf have "sl_arr s < length h" by (simp add: wf_slice_def)
  with len arrs show ?thesis
    by (simp add: frame_def)
qed

lemma walk_each_ok:
  assumes nodes: "\<And>c h st. c \<in> set cs \<Longrightarrow> wf_slice h p \<Longrightarrow>
      visits_ok f (preorder (slice_elems h p) c) p h st (walkNotebooksHierarchy grow f c p h st)"
    and wf: "wf_slice h p"
  shows "visits_ok f (concat (map (preorder (slice_elems h p)) cs)) p h st
           (walk_each grow f cs p h st)"
  using assms
proof (induction cs arbitrary: h st)
  case Nil
  then show ?case by (simp add: visits_ok_def frame_refl)
next
  case (Cons c cs)
  obtain err h1 st1 where r: "walkNotebooksHierarchy grow f c p h st = (err, h1, st1)"
    by (cases "walkNotebooksHierarchy grow f c p h st") auto
  from Cons.prems(1) [of c h st] Cons.prems(2) r
  have first: "(err, st1) = run_visits (\<lambda>(u, anc). f u anc) (preorder (slice_elems h p) c) st"
    and fr1: "frame p h h1"
    by (simp_all add: visits_ok_def)
  show ?case
  proof (cases err)
    case (Some e)
    with r first fr1 show ?thesis
      by (simp add: visits_ok_def run_visits_append split: prod.splits) (metis fst_conv snd_conv option.simps(5) prod.case)
  next
    case None
    from fr1 Cons.prems(2) have wf1: "wf_slice h1 p" and el1: "slice_elems h1 p = slice_elems h p"
      by (simp_all add: frame_wf frame_elems)
    have "visits_ok f (concat (map (preorder (slice_elems h1 p)) cs)) p h1 st1
            (walk_each grow f cs p h1 st1)"
      using Cons.IH [OF _ wf1] Cons.prems(1) by simp
    then have rest: "(fst (walk_each grow f cs p h1 st1), snd (snd (walk_each grow f cs p h1 st1))) =
        run_visits (\<lambda>(u, anc). f u anc) (concat (map (preorder (slice_elems h p)) cs)) st1"
      and fr2: "frame p h1 (fst (snd (walk_each grow f cs p h1 st1)))"
      by (simp_all add: visits_ok_def el1)
    from Cons.prems(2) have "sl_arr p < length h" by (simp add: wf_slice_def)
    with fr1 fr2 have "frame p h (fst (snd (walk_each grow f cs p h1 st1)))"
      by (rule frame_trans)
    with r None first [symmetric] rest show ?thesis
      by (simp add: visits_ok_def run_visits_append)
  qed
qed

lemma walk_node_ok:
  assumes grow: "\<And>c. c < grow c"
  shows "wf_slice h s \<Longrightarrow>
     visits_ok f (preorder (slice_elems h s) n) s h st (walkNotebooksHierarchy grow f n s h st)"
proof (induction n arbitrary: h s st)
  case (NotebookHierarchyInfo uuid children)
  obtain err st1 where v: "f uuid (slice_elems h s) st = (err, st1)"
    by (cases "f uuid (slice_elems h s) st") auto
  show ?case
  proof (cases err)
    case (Some e)
    with v show ?thesis by (simp add: visits_ok_def frame_refl)
  next
    case None
    show ?thesis
    proof (cases "children = []")
      case True
      with v None show ?thesis by (simp add: visits_ok_def frame_refl)
    next
      case False
      let ?h1 = "fst (go_append grow h s uuid)" and ?p = "snd (go_append grow h s uuid)"
      have wf1: "wf_slice ?h1 ?p"
        using grow NotebookHierarchyInfo.prems by (rule go_append_wf) simp
      have el: "slice_elems ?h1 ?p = slice_elems h s @ [uuid]"
        using NotebookHierarchyInfo.prems by (rule go_append_elems)
      have "visits_ok f (concat (map (preorder (slice_elems ?h1 ?p)) children)) ?p ?h1 st1
              (walk_each grow f children ?p ?h1 st1)"
        using NotebookHierarchyInfo.IH wf1 by (intro walk_each_ok) auto
      then have vis: "(fst (walk_each grow f children ?p ?h1 st1),
            snd (snd (walk_each grow f children ?p ?h1 st1))) =
          run_visits (\<lambda>(u, anc). f u anc)
            (concat (map (preorder (slice_elems h s @ [uuid])) children)) st1"
        and fr: "frame ?p ?h1 (fst (snd (walk_each grow f children ?p ?h1 st1)))"
        by (simp_all add: visits_ok_def el)
      from NotebookHierarchyInfo.prems fr
      have "frame s h (fst (snd (walk_each grow f children ?p ?h1 st1)))"
        by (rule go_append_frame)
      with v None False vis show ?thesis
        by (simp add: visits_ok_def)
    qed
  qed
qed

lemma build_index_present: "all_present nbs \<Longrightarrow> \<exists>idx. build_index nbs m0 = Done idx"
  by (induction nbs m0 rule: build_index.induct) (auto split: option.splits)

lemma build_index_lookup:
  "build_index nbs m0 = Done idx \<Longrightarrow>
   idx u = (case resolve nbs u of Some n \<Rightarrow> Some n | None \<Rightarrow> m0 u)"
  by (induction nbs m0 rule: build_index.induct) (auto split: option.splits)

lemma build_index_resolve:
  assumes "all_present nbs"
  shows "build_index nbs (\<lambda>u. None) = Done (resolve nbs)"
proof -
  from build_index_present [OF assms] obtain idx where
    idx: "build_index nbs (\<lambda>u. None) = Done idx" by blast
  have "idx u = resolve nbs u" for u
    using build_index_lookup [OF idx, of u] by (simp split: option.splits)
  then have "idx = resolve nbs" by (rule ext)
  with idx show ?thesis by simp
qed

lemma build_index_Done: "build_index nbs m0 = Done idx \<Longrightarrow> all_present nbs"
  by (induction nbs m0 rule: build_index.induct) (auto split: option.splits)

lemma resolve_None: "\<not> list_ex (has_uuid u) nbs \<Longrightarrow> resolve nbs u = None"
  by (induction nbs) auto

lemma resolve_has_uuid: "resolve nbs u = Some n \<Longrightarrow> has_uuid u (Some n) \<and> Some n \<in> set nbs"
  by (induction nbs) (auto split: option.splits if_splits)

lemma length_preorder: "length (preorder anc n) = count_nodes n"
proof (induction n arbitrary: anc)
  case (NotebookHierarchyInfo uuid children)
  have "(\<Sum>c\<leftarrow>children. length (preorder (anc @ [uuid]) c)) = sum_list (map count_nodes children)"
    using NotebookHierarchyInfo.IH by (intro arg_cong [where f = sum_list] map_cong) auto
  then show ?case by (simp add: length_concat comp_def)
qed

lemma wf_slice_empty: "wf_slice [[]] \<lparr>sl_arr = 0, sl_len = 0, sl_cap = 0\<rparr>"
  by (simp add: wf_slice_def)

lemma WalkNotebooksHierarchy_run:
  assumes grow: "\<And>c. c < grow c"
    and md: "lib_Metadata m = Some md"
    and present: "all_present (lib_Notebooks m)"
  shows "WalkNotebooksHierarchy grow m f st =
     Done (run_visits
       (\<lambda>(u, anc). f (resolve (lib_Notebooks m) u) (map (resolve (lib_Notebooks m)) anc))
       (forest_preorder (lm_Children md)) st)"
proof -
  let ?g = "\<lambda>c parents. f (resolve (lib_Notebooks m) c) (map (resolve (lib_Notebooks m)) parents)"
  let ?s = "\<lparr>sl_arr = 0, sl_len = 0, sl_cap = 0\<rparr>"
  have idx: "build_index (lib_Notebooks m) (\<lambda>u. None) = Done (resolve (lib_Notebooks m))"
    using present by (rule build_index_resolve)
  have "visits_ok ?g (concat (map (preorder (slice_elems [[]] ?s)) (lm_Children md))) ?s [[]] st
          (walk_each grow ?g (lm_Children md) ?s [[]] st)"
    using walk_node_ok [OF grow] wf_slice_empty by (intro walk_each_ok) auto
  moreover have "slice_elems [[]] ?s = []"
    by (simp add: slice_elems_def)
  ultimately show ?thesis
    by (auto simp: WalkNotebooksHierarchy_def idx md visits_ok_def forest_preorder_def
        split: prod.splits)
qed

lemma run_visits_stop:
  "run_visits g xs st = (None, st1) \<Longrightarrow> g v st1 = (Some e, st2) \<Longrightarrow>
   run_visits g (xs @ v # ys) st = (Some e, st2)"
  by (simp add: run_visits_append)

lemma run_visits_record:
  "run_visits (visit_with record_visit nbs) vs st =
     (None, st @ map (\<lambda>v. (resolve nbs (fst v), map (resolve nbs) (snd v))) vs)"
  by (induction vs arbitrary: st) (auto simp: visit_with_def record_visit_def)

lemma visit_with_eq:
  "(\<lambda>(u, anc). f (resolve nbs u) (map (resolve nbs) anc)) = visit_with f nbs"
  by (auto simp: visit_with_def fun_eq_iff)

lemma grow_double: "\<forall>c. c < double_cap c"
  by (simp add: double_cap_def)

lemmas walk_defs = walk_lib_def demo_nb_def forest_preorder_def visit_with_def record_visit_def
  fail_on_def

text \<open>
  Claim C7. For a library with its metadata and with every notebook present, and whatever
  capacity the run time gives a new array, \<open>WalkNotebooksHierarchy\<close> calls the visitor on
  the nodes of the declared forest in pre-order, each node once, with the node's notebook
  and the notebooks of its ancestors from the root down (none for a root), and stops at the
  first call that returns an error, which it returns.
\<close>

theorem WalkNotebooksHierarchy_preorder:
  assumes "\<forall>c. c < grow c" and "lib_Metadata m = Some md" and "all_present (lib_Notebooks m)"
  shows
    "WalkNotebooksHierarchy grow m f st =
       Done (run_visits (visit_with f (lib_Notebooks m)) (forest_preorder (lm_Children md)) st) \<and>
     length (forest_preorder (lm_Children md)) = sum_list (map count_nodes (lm_Children md)) \<and>
     (\<forall>xs v ys st1 e st2.
        forest_preorder (lm_Children md) = xs @ v # ys \<and>
        run_visits (visit_with f (lib_Notebooks m)) xs st = (None, st1) \<and>
        visit_with f (lib_Notebooks m) v st1 = (Some e, st2) \<longrightarrow>
        WalkNotebooksHierarchy grow m f st = Done (Some e, st2))"
proof -
  have run: "WalkNotebooksHierarchy grow m f st =
       Done (run_visits (visit_with f (lib_Notebooks m)) (forest_preorder (lm_Children md)) st)"
    using WalkNotebooksHierarchy_run [of grow m md f st] assms by (simp add: visit_with_eq)
  have len: "length (forest_preorder (lm_Children md)) =
      sum_list (map count_nodes (lm_Children md))"
    by (simp add: forest_preorder_def length_concat comp_def length_preorder)
  from run len show ?thesis
    by (auto simp: run_visits_stop)
qed

theorem WalkNotebooksHierarchy_preorder_witness:
  "(\<forall>c. c < double_cap c) \<and>
   WalkNotebooksHierarchy double_cap walk_lib fail_on_none [] =
     Done (None,
       [Some (demo_nb ''A''), Some (demo_nb ''B''), Some (demo_nb ''C''), Some (demo_nb ''D1''),
        Some (demo_nb ''E1''), None, None, None]) \<and>
   length (forest_preorder (lm_Children (the (lib_Metadata walk_lib)))) = 8 \<and>
   WalkNotebooksHierarchy double_cap walk_lib (fail_on ''C'') [] =
     Done (Some (ErrorString ''stop''),
       [Some (demo_nb ''A''), Some (demo_nb ''B''), Some (demo_nb ''C'')])"
proof -
  have md: "lib_Metadata walk_lib = Some (the (lib_Metadata walk_lib))"
    and present: "all_present (lib_Notebooks walk_lib)"
    by (simp_all add: walk_lib_def demo_nb_def)
  note inst = WalkNotebooksHierarchy_preorder [OF grow_double md present]
  show ?thesis
    using inst [of "fail_on ''C''" "[]"] inst [of fail_on_none "[]"] grow_double
    by (simp add: walk_defs fail_on_none_def)
qed

text \<open>
  Claim C8. Under the same conditions the walk never panics, whatever UUIDs the hierarchy
  holds. A UUID that no notebook of the list carries resolves to the nil notebook, and the
  visitor is called with it, as the node or among the ancestors, and the walk goes on to
  the remaining nodes.
\<close>

theorem WalkNotebooksHierarchy_absent_uuid:
  assumes "\<forall>c. c < grow c" and "lib_Metadata m = Some md" and "all_present (lib_Notebooks m)"
  shows
    "(\<exists>r. WalkNotebooksHierarchy grow m f st = Done r) \<and>
     WalkNotebooksHierarchy grow m record_visit [] =
       Done (None,
         map (\<lambda>v. (resolve (lib_Notebooks m) (fst v), map (resolve (lib_Notebooks m)) (snd v)))
           (forest_preorder (lm_Children md))) \<and>
     (\<not> list_ex (has_uuid u) (lib_Notebooks m) \<longrightarrow> resolve (lib_Notebooks m) u = None)"
  using WalkNotebooksHierarchy_run [of grow m md f st]
    WalkNotebooksHierarchy_run [of grow m md record_visit "[]"] assms
  by (simp add: visit_with_eq run_visits_record resolve_None)

theorem WalkNotebooksHierarchy_absent_uuid_witness:
  "(\<forall>c. c < double_cap c) \<and> all_present (lib_Notebooks walk_lib) \<and>
   \<not> list_ex (has_uuid ''GHOST'') (lib_Notebooks walk_lib) \<and>
   resolve (lib_Notebooks walk_lib) ''GHOST'' = None \<and>
   WalkNotebooksHierarchy double_cap walk_lib record_visit [] =
     Done (None,
       [(Some (demo_nb ''A''), []),
        (Some (demo_nb ''B''), [Some (demo_nb ''A'')]),
        (Some (demo_nb ''C''), [Some (demo_nb ''A''), Some (demo_nb ''B'')]),
        (Some (demo_nb ''D1''), [Some (demo_nb ''A''), Some (demo_nb ''B''), Some (demo_nb ''C'')]),
        (Some (demo_nb ''E1''),
           [Some (demo_nb ''A''), Some (demo_nb ''B''), Some (demo_nb ''C''), Some (demo_nb ''D1'')]),
        (None, [Some (demo_nb ''A''), Some (demo_nb ''B''), Some (demo_nb ''C'')]),
        (None, [Some (demo_nb ''A''), Some (demo_nb ''B''), Some (demo_nb ''C''), None]),
        (None, [])])"
proof -
  have md: "lib_Metadata walk_lib = Some (the (lib_Metadata walk_lib))"
    and present: "all_present (lib_Notebooks walk_lib)"
    and ghost: "\<not> list_ex (has_uuid ''GHOST'') (lib_Notebooks walk_lib)"
    by (simp_all add: walk_lib_def demo_nb_def)
  show ?thesis
    using WalkNotebooksHierarchy_absent_uuid [OF grow_double md present, of record_visit "[]" "''GHOST''"]
      grow_double present ghost
    by (simp add: walk_defs)
qed

section \<open>The resource codec\<close>

text \<open>
  The Base64 codec itself is sound: decoding what \<open>EncodeToString\<close> produces gives the
  payload back. A group of three bytes is read as four digits of six bits.
\<close>

lemma div_mod_64:
  fixes d k :: nat
  assumes "d < 64"
  shows "(64 * k + d) mod 64 = d" "(64 * k + d) div 64 = k"
  using assms by simp_all

lemma digits64:
  fixes d1 d2 d3 d4 :: nat
  assumes "d2 < 64" "d3 < 64" "d4 < 64"
  shows "(64 * (64 * (64 * d1 + d2) + d3) + d4) div 64 div 64 div 64 = d1"
    "(64 * (64 * (64 * d1 + d2) + d3) + d4) div 64 div 64 mod 64 = d2"
    "(64 * (64 * (64 * d1 + d2) + d3) + d4) div 64 mod 64 = d3"
    "(64 * (64 * (64 * d1 + d2) + d3) + d4) mod 64 = d4"
  using assms by (simp_all only: div_mod_64)

lemma regroup:
  fixes a1 a0 b1 b0 c1 c0 :: nat
  shows "(4 * a1 + a0) * 65536 + (16 * b1 + b0) * 256 + (64 * c1 + c0) =
         64 * (64 * (64 * a1 + (a0 * 16 + b1)) + (b0 * 4 + c1)) + c0"
  by (simp add: algebra_simps)

lemma quantum:
  fixes A B C :: nat
  assumes "B < 256" "C < 256"
  defines "val \<equiv> A * 65536 + B * 256 + C"
  shows "val div 262144 = A div 4"
    and "val div 4096 mod 64 = (A mod 4) * 16 + B div 16"
    and "val div 64 mod 64 = (B mod 16) * 4 + C div 64"
    and "val mod 64 = C mod 64"
proof -
  have c1: "C div 64 < 4" using assms(2) by simp
  have d2: "(A mod 4) * 16 + B div 16 < 64"
  proof -
    have "A mod 4 < 4" by simp
    moreover have "B div 16 < 16" using assms(1) by simp
    ultimately show ?thesis by linarith
  qed
  have d3: "(B mod 16) * 4 + C div 64 < 64"
  proof -
    have "B mod 16 < 16" by simp
    with c1 show ?thesis by linarith
  qed
  have d4: "C mod 64 < 64" by simp
  have "(4 * (A div 4) + A mod 4) * 65536 + (16 * (B div 16) + B mod 16) * 256 +
        (64 * (C div 64) + C mod 64) = val"
    unfolding val_def by (simp only: mult_div_mod_eq)
  then have val: "val = 64 * (64 * (64 * (A div 4) + ((A mod 4) * 16 + B div 16)) +
      ((B mod 16) * 4 + C div 64)) + C mod 64"
    by (simp only: regroup)
  have e1: "val div 262144 = val div 64 div 64 div 64"
    and e2: "val div 4096 = val div 64 div 64"
    by (simp_all add: div_mult2_eq)
  show "val div 262144 = A div 4"
    unfolding e1 unfolding val by (rule digits64 [OF d2 d3 d4])
  show "val div 4096 mod 64 = (A mod 4) * 16 + B div 16"
    unfolding e2 unfolding val by (rule digits64 [OF d2 d3 d4])
  show "val div 64 mod 64 = (B mod 16) * 4 + C div 64"
    unfolding val by (rule digits64 [OF d2 d3 d4])
  show "val mod 64 = C mod 64"
    unfolding val by (rule digits64 [OF d2 d3 d4])
qed


lemma index_of_nth:
  "distinct xs \<Longrightarrow> i < length xs \<Longrightarrow> index_of (xs ! i) xs k = Some (k + i)"
proof (induction xs arbitrary: i k)
  case Nil
  then show ?case by simp
next
  case (Cons x xs)
  show ?case
  proof (cases i)
    case 0
    then show ?thesis by simp
  next
    case (Suc j)
    with Cons.prems have "xs ! j \<noteq> x" by auto
    with Suc Cons.prems Cons.IH [of j "Suc k"] show ?thesis by simp
  qed
qed

lemma encodeURL_length: "length encodeURL = 64"
  by (simp add: encodeURL_def)

lemma encodeURL_distinct: "distinct encodeURL"
  by (simp add: encodeURL_def)

lemma encodeURL_no_newline: "CHR 0x0A \<notin> set encodeURL" "CHR 0x0D \<notin> set encodeURL"
  by (simp_all add: encodeURL_def)

lemma decodeMap_enc: "decodeMap (enc i) = Some (i mod 64)"
  using index_of_nth [OF encodeURL_distinct, of "i mod 64" 0]
  by (simp add: decodeMap_def enc_def encodeURL_length)

lemma enc_in_alphabet: "enc i \<in> set encodeURL"
  unfolding enc_def by (rule nth_mem) (simp add: encodeURL_length)

lemma enc_no_newline: "enc i \<noteq> CHR 0x0A" "enc i \<noteq> CHR 0x0D"
  using encodeURL_no_newline enc_in_alphabet [of i] by auto

lemma decode_step:
  "decode_loop (enc i # src) si dbuf out =
     (case dbuf of
        [a, b, c] \<Rightarrow>
          decode_loop src (Suc si) []
            (out @ [byte (a * 4 + b div 16), byte (b * 16 + c div 4), byte (c * 64 + i mod 64)])
      | _ \<Rightarrow> decode_loop src (Suc si) (dbuf @ [i mod 64]) out)"
  by (simp add: decodeMap_enc enc_no_newline)

lemma bytes_back:
  fixes A B C :: nat
  assumes "A < 256" "B < 256" "C < 256"
  shows "(A div 4 * 4 + (A mod 4 * 16 + B div 16) div 16) mod 256 = A"
    and "((A mod 4 * 16 + B div 16) * 16 + (B mod 16 * 4 + C div 64) div 4) mod 256 = B"
    and "((B mod 16 * 4 + C div 64) * 64 + C mod 64) mod 256 = C"
proof -
  have b: "B div 16 < 16" and c: "C div 64 < 4" using assms by simp_all
  from b have 1: "(A mod 4 * 16 + B div 16) div 16 = A mod 4" by simp
  from assms(1) 1 show "(A div 4 * 4 + (A mod 4 * 16 + B div 16) div 16) mod 256 = A"
    by simp
  from c have 2: "(B mod 16 * 4 + C div 64) div 4 = B mod 16" by simp
  have "(A mod 4 * 16 + B div 16) * 16 + B mod 16 = 256 * (A mod 4) + B"
    by (simp add: algebra_simps)
  with 2 assms(2) show "((A mod 4 * 16 + B div 16) * 16 + (B mod 16 * 4 + C div 64) div 4) mod 256 = B"
    by simp
  have "(B mod 16 * 4 + C div 64) * 64 + C mod 64 = 256 * (B mod 16) + C"
    by (simp add: algebra_simps)
  with assms(3) show "((B mod 16 * 4 + C div 64) * 64 + C mod 64) mod 256 = C"
    by simp
qed


lemma bytes_back_char:
  fixes A B C :: nat
  assumes "A < 256" "B < 256" "C < 256"
  shows "byte (A div 4 * 4 + (A mod 4 * 16 + B div 16) div 16) = char_of A"
    and "byte ((A mod 4 * 16 + B div 16) * 16 + (B mod 16 * 4 + C div 64) div 4) = char_of B"
    and "byte ((B mod 16 * 4 + C div 64) * 64 + C mod 64) = char_of C"
  unfolding byte_def by (simp_all only: bytes_back [OF assms])

lemma quantum2:
  fixes A B :: nat
  assumes "B < 256"
  shows "(A * 65536 + B * 256) div 262144 = A div 4"
    and "(A * 65536 + B * 256) div 4096 mod 64 = (A mod 4) * 16 + B div 16"
    and "(A * 65536 + B * 256) div 64 mod 64 = (B mod 16) * 4"
  using quantum [OF assms, of 0 A] by simp_all

lemma quantum1:
  fixes A :: nat
  shows "(A * 65536) div 262144 = A div 4"
    and "(A * 65536) div 4096 mod 64 = (A mod 4) * 16"
  using quantum2 [of 0 A] by simp_all

lemma bytes_back2:
  fixes A B :: nat
  assumes "A < 256" "B < 256"
  shows "byte (A div 4 * 4 + (A mod 4 * 16 + B div 16) div 16) = char_of A"
    and "byte ((A mod 4 * 16 + B div 16) * 16 + (B mod 16 * 4) div 4) = char_of B"
  using bytes_back_char [OF assms, of 0] by simp_all

lemma bytes_back1:
  fixes A :: nat
  assumes "A < 256"
  shows "byte (A div 4 * 4 + (A mod 4 * 16) div 16) = char_of A"
  using bytes_back2 [OF assms, of 0] by simp

lemma div4_mod64: "(A::nat) < 256 \<Longrightarrow> A div 4 mod 64 = A div 4"
  by simp

lemma byte_of_char: "byte (of_char a) = a"
  by (simp add: byte_def)

lemma decode_encode: "decode_loop (EncodeToString d) si [] out = Inr (out @ d)"
proof (induction d arbitrary: si out rule: EncodeToString.induct)
  case (1 a b c src)
  let ?A = "of_char a :: nat" and ?B = "of_char b :: nat" and ?C = "of_char c :: nat"
  let ?val = "?A * 65536 + ?B * 256 + ?C"
  have lt: "?A < 256" "?B < 256" "?C < 256" by simp_all
  note q = quantum [OF lt(2,3), of ?A]
  have v1: "?val div 262144 mod 64 = ?A div 4"
    unfolding q(1) by (rule div4_mod64) simp
  have bytes: "byte (?val div 262144 mod 64 * 4 + (?val div 4096 mod 64) div 16) = a"
    "byte (?val div 4096 mod 64 * 16 + (?val div 64 mod 64) div 4) = b"
    "byte (?val div 64 mod 64 * 64 + ?val mod 64) = c"
    unfolding v1 q(2,3,4) by (simp_all only: bytes_back_char [OF lt] char_of_char)
  have "decode_loop (EncodeToString (a # b # c # src)) si [] out =
      decode_loop (EncodeToString src) (Suc (Suc (Suc (Suc si)))) []
        (out @ [byte (?val div 262144 mod 64 * 4 + (?val div 4096 mod 64) div 16),
                byte (?val div 4096 mod 64 * 16 + (?val div 64 mod 64) div 4),
                byte (?val div 64 mod 64 * 64 + ?val mod 64)])"
    by (simp only: EncodeToString.simps Let_def decode_step list.case append.simps)
  also have "\<dots> = decode_loop (EncodeToString src) (Suc (Suc (Suc (Suc si)))) [] (out @ [a, b, c])"
    by (simp only: bytes)
  also have "\<dots> = Inr ((out @ [a, b, c]) @ src)"
    by (rule "1.IH") simp
  finally show ?case by simp
next
  case (2 a b)
  let ?A = "of_char a :: nat" and ?B = "of_char b :: nat"
  let ?val = "?A * 65536 + ?B * 256"
  have lt: "?A < 256" "?B < 256" by simp_all
  note q = quantum2 [OF lt(2), of ?A]
  have v1: "?val div 262144 mod 64 = ?A div 4"
    unfolding q(1) by (rule div4_mod64) simp
  have bytes: "byte (?val div 262144 mod 64 * 4 + (?val div 4096 mod 64) div 16) = a"
    "byte (?val div 4096 mod 64 * 16 + (?val div 64 mod 64) div 4) = b"
    unfolding v1 q(2,3) by (simp_all only: bytes_back2 [OF lt] char_of_char)
  have "decode_loop (EncodeToString [a, b]) si [] out =
      Inr (out @ [byte (?val div 262144 mod 64 * 4 + (?val div 4096 mod 64) div 16),
                  byte (?val div 4096 mod 64 * 16 + (?val div 64 mod 64) div 4)])"
    by (simp only: EncodeToString.simps Let_def decode_step list.case append.simps
        decode_loop.simps(1))
  then show ?case by (simp only: bytes)
next
  case (3 a)
  let ?A = "of_char a :: nat"
  let ?val = "?A * 65536"
  have lt: "?A < 256" by simp
  note q = quantum1 [of ?A]
  have v1: "?val div 262144 mod 64 = ?A div 4"
    unfolding q(1) by (rule div4_mod64) simp
  have bytes: "byte (?val div 262144 mod 64 * 4 + (?val div 4096 mod 64) div 16) = a"
    unfolding v1 q(2) by (simp only: bytes_back1 [OF lt] char_of_char)
  have "decode_loop (EncodeToString [a]) si [] out =
      Inr (out @ [byte (?val div 262144 mod 64 * 4 + (?val div 4096 mod 64) div 16)])"
    by (simp only: EncodeToString.simps Let_def decode_step list.case append.simps
        decode_loop.simps(1))
  then show ?case by (simp only: bytes)
next
  case 4
  show ?case by simp
qed

lemma DecodeString_EncodeToString: "DecodeString (EncodeToString d) = Inr d"
  by (simp add: DecodeString_def decode_encode)

text \<open>\<open>UnmarshalJSON\<close> never gets as far as the data URI.\<close>

lemma UnmarshalJSON_fails:
  "UnmarshalJSON valid u data =
     (u, Some (case valid data of Inl err \<Rightarrow> err | Inr v \<Rightarrow> InvalidUnmarshalError))"
  by (simp add: UnmarshalJSON_def json_Unmarshal_value_def split: sum.splits)

text \<open>
  Claim C1. The resource \<open>pic.png\<close> with payload \<open>PNG\<close> is marshalled to the object
  with its name and the data URI \<open>data:image/png,UE5H\<close>; \<open>UnmarshalJSON\<close> on this very
  text returns an \<open>InvalidUnmarshalError\<close> and recovers nothing.
\<close>

theorem UnmarshalJSON_rejects_MarshalJSON:
  "MarshalJSON demo_render demo_mime demo_resource = (demo_resource_text, None) \<and>
   demo_valid demo_resource_text =
     Inr (JObject [(''Name'', JString ''pic.png''), (''Data'', JString ''data:image/png,UE5H'')]) \<and>
   UnmarshalJSON demo_valid zero_NoteResource demo_resource_text =
     (zero_NoteResource, Some InvalidUnmarshalError)"
  by (simp add: MarshalJSON_def UnmarshalJSON_def json_Unmarshal_value_def demo_render_def
      demo_valid_def demo_resource_json_def demo_resource_def demo_mime_def
      mime_TypeByExtension_def filepath_Ext_def enc_def encodeURL_def)

end
